theory Spec2Isabelle
  imports Main
begin

section \<open>The operation node model\<close>

text \<open>
  Modelled from the spec: the node declarations (operation-node/*.ts) are not among the
  sources; the types below have the fields that with-schema-transformer.ts reads
  (\<^verbatim>\<open>expr.name.table.table.identifier.name\<close>, \<^verbatim>\<open>node.from.froms\<close>, \<^verbatim>\<open>join.table\<close>,
  \<^verbatim>\<open>alias.node\<close>, \<^verbatim>\<open>node.schema\<close>) with the types that TypeScript gives them there.
  An absent (\<^verbatim>\<open>undefined\<close>) property is \<open>None\<close>. The field \<^verbatim>\<open>identifier\<close> is written
  \<open>ident\<close>. Properties that hold no node (flags, operators, modifiers) are left out,
  except the SQL fragments of a raw node and the join type.
\<close>

datatype IdentifierNode = IdentifierNode (name: string)

datatype SchemableIdentifierNode =
  SchemableIdentifierNode (schema: "IdentifierNode option") (ident: IdentifierNode)

datatype TableNode = TableNode (table: SchemableIdentifierNode)

datatype CommonTableExpressionNameNode =
  CommonTableExpressionNameNode (cte_table: TableNode) (columns: "IdentifierNode list option")

text \<open>
  Every node kind that the transformer does not look into is a \<open>Composite\<close>: its
  \<^verbatim>\<open>kind\<close> tag, the six properties that \<^verbatim>\<open>#collectSchemableIds\<close> probes on a root node
  (\<^verbatim>\<open>name\<close>, \<^verbatim>\<open>from\<close>, \<^verbatim>\<open>into\<close>, \<^verbatim>\<open>table\<close>, \<^verbatim>\<open>joins\<close>, \<^verbatim>\<open>with\<close>, in this order) and its
  remaining child nodes in order. A \<^verbatim>\<open>SelectQueryNode\<close> with a FROM clause, a WHERE clause
  and no other property is \<open>Composite ''SelectQueryNode'' None (Some (FromNode fs)) None None
  None None [w]\<close>.
\<close>

datatype OperationNode =
    Identifier IdentifierNode
  | SchemableIdentifier SchemableIdentifierNode
  | Table TableNode
  | Alias OperationNode OperationNode
  | Raw "string list" "OperationNode list"
  | Composite string "OperationNode option" "FromNode option" "OperationNode option"
      "OperationNode option" "JoinNode list option" "WithNode option" "OperationNode list"
and FromNode = FromNode (froms: "OperationNode list")
and JoinNode =
  JoinNode (joinType: string) (join_table: OperationNode) (join_on: "OperationNode option")
and WithNode = WithNode (expressions: "CommonTableExpressionNode list")
and CommonTableExpressionNode =
  CommonTableExpressionNode (cte_name: CommonTableExpressionNameNode) (expression: OperationNode)

text \<open>The discriminant tag \<^verbatim>\<open>node.kind\<close>.\<close>

fun kind :: "OperationNode \<Rightarrow> string" where
  "kind (Identifier _) = ''IdentifierNode''"
| "kind (SchemableIdentifier _) = ''SchemableIdentifierNode''"
| "kind (Table _) = ''TableNode''"
| "kind (Alias _ _) = ''AliasNode''"
| "kind (Raw _ _) = ''RawNode''"
| "kind (Composite k _ _ _ _ _ _ _) = k"

text \<open>
  \<^verbatim>\<open>'name' in node && node.name\<close> and its five siblings: the property when the node has
  it and it is defined.
\<close>

fun name_field :: "OperationNode \<Rightarrow> OperationNode option" where
  "name_field (Composite _ n _ _ _ _ _ _) = n"
| "name_field _ = None"

fun from_field :: "OperationNode \<Rightarrow> FromNode option" where
  "from_field (Composite _ _ f _ _ _ _ _) = f"
| "from_field _ = None"

fun into_field :: "OperationNode \<Rightarrow> OperationNode option" where
  "into_field (Composite _ _ _ i _ _ _ _) = i"
| "into_field _ = None"

fun table_field :: "OperationNode \<Rightarrow> OperationNode option" where
  "table_field (Composite _ _ _ _ t _ _ _) = t"
| "table_field _ = None"

fun joins_field :: "OperationNode \<Rightarrow> JoinNode list option" where
  "joins_field (Composite _ _ _ _ _ j _ _) = j"
| "joins_field _ = None"

fun with_field :: "OperationNode \<Rightarrow> WithNode option" where
  "with_field (Composite _ _ _ _ _ _ w _) = w"
| "with_field _ = None"

section \<open>The schema-qualification transformer\<close>

text \<open>
  with-schema-transformer.ts. The private field \<^verbatim>\<open>#schema\<close> is the argument
  \<open>this_schema\<close>; the private mutable set \<^verbatim>\<open>#schemableIds\<close> is passed in as
  \<open>this_schemableIds\<close> and, where the code changes it, returned. A \<^verbatim>\<open>Set<string>\<close> is a
  \<open>string set\<close>: \<^verbatim>\<open>add\<close> is \<open>insert\<close>, \<^verbatim>\<open>delete\<close> removes one element, \<^verbatim>\<open>has\<close> is
  membership.
\<close>

definition ROOT_OPERATION_NODES :: "string list" where
  "ROOT_OPERATION_NODES =
    [''AlterTableNode'', ''CreateIndexNode'', ''CreateSchemaNode'', ''CreateTableNode'',
     ''CreateTypeNode'', ''CreateViewNode'', ''DeleteQueryNode'', ''DropIndexNode'',
     ''DropSchemaNode'', ''DropTableNode'', ''DropTypeNode'', ''DropViewNode'',
     ''InsertQueryNode'', ''RawNode'', ''SelectQueryNode'', ''UpdateQueryNode'']"

definition isRootOperationNode :: "OperationNode \<Rightarrow> bool" where
  "isRootOperationNode node = (kind node \<in> set ROOT_OPERATION_NODES)"

definition collectSchemableId ::
  "string set \<Rightarrow> SchemableIdentifierNode \<Rightarrow> string set \<Rightarrow> string set" where
  "collectSchemableId this_schemableIds node schemableIds =
     (if name (ident node) \<notin> this_schemableIds
      then insert (name (ident node)) schemableIds
      else schemableIds)"

definition collectSchemableIdsFromTableExpr ::
  "string set \<Rightarrow> OperationNode \<Rightarrow> string set \<Rightarrow> string set" where
  "collectSchemableIdsFromTableExpr this_schemableIds node schemableIds =
     (let tbl = (case node of
                   Table t \<Rightarrow> Some t
                 | Alias inner _ \<Rightarrow> (case inner of Table t \<Rightarrow> Some t | _ \<Rightarrow> None)
                 | _ \<Rightarrow> None)
      in case tbl of
           Some t \<Rightarrow> collectSchemableId this_schemableIds (table t) schemableIds
         | None \<Rightarrow> schemableIds)"

definition removeCommonTableExpressionTables :: "WithNode \<Rightarrow> string set \<Rightarrow> string set" where
  "removeCommonTableExpressionTables node schemableIds =
     fold (\<lambda>expr ids. ids - {name (ident (table (cte_table (cte_name expr))))})
       (expressions node) schemableIds"

definition collectSchemableIds :: "string set \<Rightarrow> OperationNode \<Rightarrow> string set" where
  "collectSchemableIds this_schemableIds node =
     (let ids0 = {};
          ids1 = (case name_field node of
                    Some (SchemableIdentifier n) \<Rightarrow> collectSchemableId this_schemableIds n ids0
                  | _ \<Rightarrow> ids0);
          ids2 = (case from_field node of
                    Some f \<Rightarrow>
                      fold (collectSchemableIdsFromTableExpr this_schemableIds) (froms f) ids1
                  | None \<Rightarrow> ids1);
          ids3 = (case into_field node of
                    Some i \<Rightarrow> collectSchemableIdsFromTableExpr this_schemableIds i ids2
                  | None \<Rightarrow> ids2);
          ids4 = (case table_field node of
                    Some t \<Rightarrow> collectSchemableIdsFromTableExpr this_schemableIds t ids3
                  | None \<Rightarrow> ids3);
          ids5 = (case joins_field node of
                    Some js \<Rightarrow>
                      fold (\<lambda>join. collectSchemableIdsFromTableExpr this_schemableIds (join_table join))
                        js ids4
                  | None \<Rightarrow> ids4);
          ids6 = (case with_field node of
                    Some w \<Rightarrow> removeCommonTableExpressionTables w ids5
                  | None \<Rightarrow> ids5)
      in ids6)"

subsection \<open>The generic transformer engine\<close>

text \<open>
  Modelled from the spec: operation-node-transformer.ts, the superclass
  \<^verbatim>\<open>OperationNodeTransformer\<close>, is not among the sources. Per the spec (4.3) its default
  handler of a node kind transforms every child node and child sequence recursively,
  through the overridable \<^verbatim>\<open>transformNodeImpl\<close>, and rebuilds the node with the results
  and the same \<^verbatim>\<open>kind\<close>; a node without children comes back as it is. Reference identity
  is not modelled: a node is its value. The error of an unknown \<^verbatim>\<open>kind\<close> tag cannot
  occur on a value of type \<open>OperationNode\<close>.
\<close>

definition transformIdentifier :: "IdentifierNode \<Rightarrow> IdentifierNode" where
  "transformIdentifier node = node"

definition super_transformSchemableIdentifier ::
  "SchemableIdentifierNode \<Rightarrow> SchemableIdentifierNode" where
  "super_transformSchemableIdentifier node =
     SchemableIdentifierNode (map_option transformIdentifier (schema node))
       (transformIdentifier (ident node))"

text \<open>The override \<^verbatim>\<open>WithSchemaTransformer.transformSchemableIdentifier\<close>.\<close>

definition transformSchemableIdentifier ::
  "string \<Rightarrow> string set \<Rightarrow> SchemableIdentifierNode \<Rightarrow> SchemableIdentifierNode" where
  "transformSchemableIdentifier this_schema this_schemableIds node =
     (let transformed = super_transformSchemableIdentifier node
      in if schema transformed \<noteq> None \<or> name (ident node) \<notin> this_schemableIds
         then transformed
         else SchemableIdentifierNode (Some (IdentifierNode this_schema)) (ident transformed))"

text \<open>
  Modelled from the spec: the engine's handlers of a table node and of the name of a common
  table expression. The table's identifier goes through the overridden
  \<open>transformSchemableIdentifier\<close> (a \<^verbatim>\<open>SchemableIdentifierNode\<close> is no root node).
\<close>

definition transformTable :: "string \<Rightarrow> string set \<Rightarrow> TableNode \<Rightarrow> TableNode" where
  "transformTable this_schema this_schemableIds node =
     TableNode (transformSchemableIdentifier this_schema this_schemableIds (table node))"

definition transformCommonTableExpressionName ::
  "string \<Rightarrow> string set \<Rightarrow> CommonTableExpressionNameNode \<Rightarrow> CommonTableExpressionNameNode" where
  "transformCommonTableExpressionName this_schema this_schemableIds node =
     CommonTableExpressionNameNode (transformTable this_schema this_schemableIds (cte_table node))
       (map_option (map transformIdentifier) (columns node))"

text \<open>
  A traversal reads and returns the transformer's set \<^verbatim>\<open>#schemableIds\<close>.
  \<open>traverse_list\<close> is the engine's \<^verbatim>\<open>transformNodeList\<close> (the elements in order, the set
  threaded through), \<open>traverse_option\<close> its pass-through of an undefined child.
\<close>

type_synonym 'a traversal = "string set \<Rightarrow> 'a \<times> string set"

fun traverse_list :: "'a traversal list \<Rightarrow> 'a list traversal" where
  "traverse_list [] ids = ([], ids)"
| "traverse_list (m # ms) ids =
     (case m ids of (x, ids1) \<Rightarrow>
      case traverse_list ms ids1 of (xs, ids2) \<Rightarrow> (x # xs, ids2))"

fun traverse_option :: "'a traversal option \<Rightarrow> 'a option traversal" where
  "traverse_option None ids = (None, ids)"
| "traverse_option (Some m) ids = (case m ids of (x, ids1) \<Rightarrow> (Some x, ids1))"

text \<open>
  The override \<^verbatim>\<open>WithSchemaTransformer.transformNodeImpl\<close>, with the call
  \<^verbatim>\<open>super.transformNodeImpl(node)\<close> as its first argument: the engine below calls the
  override on every child, and the override calls the engine on its node.
\<close>

definition transformNodeImpl_override ::
  "OperationNode traversal \<Rightarrow> OperationNode \<Rightarrow> OperationNode traversal" where
  "transformNodeImpl_override super_transformNodeImpl_node node ids =
     (if \<not> isRootOperationNode node then super_transformNodeImpl_node ids
      else
        let tables = collectSchemableIds ids node;
            ids1 = ids \<union> tables
        in case super_transformNodeImpl_node ids1 of
             (transformed, ids2) \<Rightarrow> (transformed, ids2 - tables))"

text \<open>
  Modelled from the spec: the engine's \<^verbatim>\<open>transformNodeImpl\<close> and the handlers it
  dispatches to, one equation per node kind. The children of a \<open>Composite\<close> are transformed
  in the order of its fields.
\<close>

primrec super_transformNodeImpl :: "string \<Rightarrow> OperationNode \<Rightarrow> OperationNode traversal"
  and transformFrom :: "string \<Rightarrow> FromNode \<Rightarrow> FromNode traversal"
  and transformJoin :: "string \<Rightarrow> JoinNode \<Rightarrow> JoinNode traversal"
  and transformWith :: "string \<Rightarrow> WithNode \<Rightarrow> WithNode traversal"
  and transformCommonTableExpression ::
        "string \<Rightarrow> CommonTableExpressionNode \<Rightarrow> CommonTableExpressionNode traversal"
where
  "super_transformNodeImpl sch (Identifier i) ids = (Identifier (transformIdentifier i), ids)"
| "super_transformNodeImpl sch (SchemableIdentifier i) ids =
     (SchemableIdentifier (transformSchemableIdentifier sch ids i), ids)"
| "super_transformNodeImpl sch (Table t) ids = (Table (transformTable sch ids t), ids)"
| "super_transformNodeImpl sch (Alias n a) ids =
     (case transformNodeImpl_override (super_transformNodeImpl sch n) n ids of (n', ids1) \<Rightarrow>
      case transformNodeImpl_override (super_transformNodeImpl sch a) a ids1 of (a', ids2) \<Rightarrow>
        (Alias n' a', ids2))"
| "super_transformNodeImpl sch (Raw fragments ps) ids =
     (case traverse_list
             (map (\<lambda>p. transformNodeImpl_override (super_transformNodeImpl sch p) p) ps) ids
      of (ps', ids1) \<Rightarrow> (Raw fragments ps', ids1))"
| "super_transformNodeImpl sch (Composite k nm fr into tbl js w rest) ids =
     (case traverse_option
             (map_option (\<lambda>n. transformNodeImpl_override (super_transformNodeImpl sch n) n) nm) ids
      of (nm', ids1) \<Rightarrow>
      case traverse_option (map_option (transformFrom sch) fr) ids1 of (fr', ids2) \<Rightarrow>
      case traverse_option
             (map_option (\<lambda>n. transformNodeImpl_override (super_transformNodeImpl sch n) n) into) ids2
      of (into', ids3) \<Rightarrow>
      case traverse_option
             (map_option (\<lambda>n. transformNodeImpl_override (super_transformNodeImpl sch n) n) tbl) ids3
      of (tbl', ids4) \<Rightarrow>
      case traverse_option (map_option traverse_list (map_option (map (transformJoin sch)) js)) ids4
      of (js', ids5) \<Rightarrow>
      case traverse_option (map_option (transformWith sch) w) ids5 of (w', ids6) \<Rightarrow>
      case traverse_list
             (map (\<lambda>n. transformNodeImpl_override (super_transformNodeImpl sch n) n) rest) ids6
      of (rest', ids7) \<Rightarrow>
        (Composite k nm' fr' into' tbl' js' w' rest', ids7))"
| "transformFrom sch (FromNode fs) ids =
     (case traverse_list
             (map (\<lambda>n. transformNodeImpl_override (super_transformNodeImpl sch n) n) fs) ids
      of (fs', ids1) \<Rightarrow> (FromNode fs', ids1))"
| "transformJoin sch (JoinNode jt t on) ids =
     (case transformNodeImpl_override (super_transformNodeImpl sch t) t ids of (t', ids1) \<Rightarrow>
      case traverse_option
             (map_option (\<lambda>n. transformNodeImpl_override (super_transformNodeImpl sch n) n) on) ids1
      of (on', ids2) \<Rightarrow> (JoinNode jt t' on', ids2))"
| "transformWith sch (WithNode es) ids =
     (case traverse_list (map (transformCommonTableExpression sch) es) ids of (es', ids1) \<Rightarrow>
        (WithNode es', ids1))"
| "transformCommonTableExpression sch (CommonTableExpressionNode n e) ids =
     (case transformNodeImpl_override (super_transformNodeImpl sch e) e ids of (e', ids1) \<Rightarrow>
        (CommonTableExpressionNode (transformCommonTableExpressionName sch ids n) e', ids1))"

text \<open>\<^verbatim>\<open>WithSchemaTransformer.transformNodeImpl\<close> on a node.\<close>

definition transformNodeImpl :: "string \<Rightarrow> OperationNode \<Rightarrow> OperationNode traversal" where
  "transformNodeImpl sch node = transformNodeImpl_override (super_transformNodeImpl sch node) node"

text \<open>
  Modelled from the spec: the engine's public \<^verbatim>\<open>transformNode\<close> hands a defined node to
  \<^verbatim>\<open>transformNodeImpl\<close>. \<open>withSchema\<close> is one application of the transformer to a tree:
  \<^verbatim>\<open>new WithSchemaTransformer(schema).transformNode(node)\<close>, the set \<^verbatim>\<open>#schemableIds\<close>
  empty at the start.
\<close>

definition transformNode :: "string \<Rightarrow> OperationNode \<Rightarrow> OperationNode traversal" where
  "transformNode sch node = transformNodeImpl sch node"

definition withSchema :: "string \<Rightarrow> OperationNode \<Rightarrow> OperationNode" where
  "withSchema sch node = fst (transformNode sch node {})"

text \<open>The tree that a traversal returns, the set it starts from given.\<close>

definition qualify :: "string \<Rightarrow> string set \<Rightarrow> OperationNode \<Rightarrow> OperationNode" where
  "qualify sch ids node = fst (transformNodeImpl sch node ids)"

definition qualify_super :: "string \<Rightarrow> string set \<Rightarrow> OperationNode \<Rightarrow> OperationNode" where
  "qualify_super sch ids node = fst (super_transformNodeImpl sch node ids)"

definition qualify_from :: "string \<Rightarrow> string set \<Rightarrow> FromNode \<Rightarrow> FromNode" where
  "qualify_from sch ids node = fst (transformFrom sch node ids)"

definition qualify_join :: "string \<Rightarrow> string set \<Rightarrow> JoinNode \<Rightarrow> JoinNode" where
  "qualify_join sch ids node = fst (transformJoin sch node ids)"

definition qualify_with :: "string \<Rightarrow> string set \<Rightarrow> WithNode \<Rightarrow> WithNode" where
  "qualify_with sch ids node = fst (transformWith sch node ids)"

definition qualify_cte ::
  "string \<Rightarrow> string set \<Rightarrow> CommonTableExpressionNode \<Rightarrow> CommonTableExpressionNode" where
  "qualify_cte sch ids node = fst (transformCommonTableExpression sch node ids)"

subsection \<open>The table names of a root node, as the specification words them\<close>

text \<open>
  The name that a table expression contributes: the name of the table it is, or of the
  table it is an alias of; nothing otherwise.
\<close>

fun underlying_table_names :: "OperationNode \<Rightarrow> string set" where
  "underlying_table_names (Table t) = {name (ident (table t))}"
| "underlying_table_names (Alias (Table t) _) = {name (ident (table t))}"
| "underlying_table_names _ = {}"

text \<open>
  The node's own name when it is a schemable identifier, the tables of its FROM list, its
  INTO target, its TABLE target and the tables of its joins.
\<close>

definition listed_table_names :: "OperationNode \<Rightarrow> string set" where
  "listed_table_names node =
     (case name_field node of Some (SchemableIdentifier n) \<Rightarrow> {name (ident n)} | _ \<Rightarrow> {})
     \<union> (case from_field node of
          Some f \<Rightarrow> \<Union> (underlying_table_names ` set (froms f)) | None \<Rightarrow> {})
     \<union> (case into_field node of Some i \<Rightarrow> underlying_table_names i | None \<Rightarrow> {})
     \<union> (case table_field node of Some t \<Rightarrow> underlying_table_names t | None \<Rightarrow> {})
     \<union> (case joins_field node of
          Some js \<Rightarrow> \<Union> ((\<lambda>j. underlying_table_names (join_table j)) ` set js) | None \<Rightarrow> {})"

text \<open>The names bound by the node's WITH clause.\<close>

definition with_bound_names :: "OperationNode \<Rightarrow> string set" where
  "with_bound_names node =
     (case with_field node of
        Some w \<Rightarrow> (\<lambda>e. name (ident (table (cte_table (cte_name e))))) ` set (expressions w)
      | None \<Rightarrow> {})"

subsection \<open>Observing a tree\<close>

text \<open>
  Every schemable identifier of a tree, in the order of the traversal. The transformer
  keeps their number and order, so the identifiers of a given name before and after a
  transformation correspond one to one.
\<close>

fun or_empty :: "'a list option \<Rightarrow> 'a list" where
  "or_empty None = []"
| "or_empty (Some xs) = xs"

primrec schemableIdentifiers :: "OperationNode \<Rightarrow> SchemableIdentifierNode list"
  and schemableIdentifiers_from :: "FromNode \<Rightarrow> SchemableIdentifierNode list"
  and schemableIdentifiers_join :: "JoinNode \<Rightarrow> SchemableIdentifierNode list"
  and schemableIdentifiers_with :: "WithNode \<Rightarrow> SchemableIdentifierNode list"
  and schemableIdentifiers_cte :: "CommonTableExpressionNode \<Rightarrow> SchemableIdentifierNode list"
where
  "schemableIdentifiers (Identifier i) = []"
| "schemableIdentifiers (SchemableIdentifier i) = [i]"
| "schemableIdentifiers (Table t) = [table t]"
| "schemableIdentifiers (Alias n a) = schemableIdentifiers n @ schemableIdentifiers a"
| "schemableIdentifiers (Raw fragments ps) = concat (map schemableIdentifiers ps)"
| "schemableIdentifiers (Composite k nm fr into tbl js w rest) =
     or_empty (map_option schemableIdentifiers nm)
     @ or_empty (map_option schemableIdentifiers_from fr)
     @ or_empty (map_option schemableIdentifiers into)
     @ or_empty (map_option schemableIdentifiers tbl)
     @ or_empty (map_option concat (map_option (map schemableIdentifiers_join) js))
     @ or_empty (map_option schemableIdentifiers_with w)
     @ concat (map schemableIdentifiers rest)"
| "schemableIdentifiers_from (FromNode fs) = concat (map schemableIdentifiers fs)"
| "schemableIdentifiers_join (JoinNode jt t on) =
     schemableIdentifiers t @ or_empty (map_option schemableIdentifiers on)"
| "schemableIdentifiers_with (WithNode es) = concat (map schemableIdentifiers_cte es)"
| "schemableIdentifiers_cte (CommonTableExpressionNode n e) =
     table (cte_table n) # schemableIdentifiers e"

text \<open>The identifiers of a list that have the bare name \<open>x\<close>.\<close>

definition named :: "string \<Rightarrow> SchemableIdentifierNode list \<Rightarrow> SchemableIdentifierNode list" where
  "named x is = filter (\<lambda>i. name (ident i) = x) is"

text \<open>
  The names that the root nodes strictly inside a tree list as their own tables:
  \<open>own_tables\<close> of a root node is what it lists outside its WITH names, and
  \<open>nested_tables\<close> collects \<open>own_tables\<close> over every proper descendant.
\<close>

definition own_tables :: "OperationNode \<Rightarrow> string set" where
  "own_tables node =
     (if isRootOperationNode node then listed_table_names node - with_bound_names node else {})"

fun opt_set :: "'a set option \<Rightarrow> 'a set" where
  "opt_set None = {}"
| "opt_set (Some A) = A"

primrec nested_tables :: "OperationNode \<Rightarrow> string set"
  and nested_tables_from :: "FromNode \<Rightarrow> string set"
  and nested_tables_join :: "JoinNode \<Rightarrow> string set"
  and nested_tables_with :: "WithNode \<Rightarrow> string set"
  and nested_tables_cte :: "CommonTableExpressionNode \<Rightarrow> string set"
where
  "nested_tables (Identifier i) = {}"
| "nested_tables (SchemableIdentifier i) = {}"
| "nested_tables (Table t) = {}"
| "nested_tables (Alias n a) =
     (own_tables n \<union> nested_tables n) \<union> (own_tables a \<union> nested_tables a)"
| "nested_tables (Raw fragments ps) =
     \<Union> (set (map (\<lambda>p. own_tables p \<union> nested_tables p) ps))"
| "nested_tables (Composite k nm fr into tbl js w rest) =
     opt_set (map_option (\<lambda>n. own_tables n \<union> nested_tables n) nm)
     \<union> opt_set (map_option nested_tables_from fr)
     \<union> opt_set (map_option (\<lambda>n. own_tables n \<union> nested_tables n) into)
     \<union> opt_set (map_option (\<lambda>n. own_tables n \<union> nested_tables n) tbl)
     \<union> opt_set (map_option (\<lambda>l. \<Union> (set l)) (map_option (map nested_tables_join) js))
     \<union> opt_set (map_option nested_tables_with w)
     \<union> \<Union> (set (map (\<lambda>n. own_tables n \<union> nested_tables n) rest))"
| "nested_tables_from (FromNode fs) =
     \<Union> (set (map (\<lambda>n. own_tables n \<union> nested_tables n) fs))"
| "nested_tables_join (JoinNode jt t on) =
     (own_tables t \<union> nested_tables t)
     \<union> opt_set (map_option (\<lambda>n. own_tables n \<union> nested_tables n) on)"
| "nested_tables_with (WithNode es) = \<Union> (set (map nested_tables_cte es))"
| "nested_tables_cte (CommonTableExpressionNode n e) = own_tables e \<union> nested_tables e"

subsection \<open>Example statements\<close>

text \<open>
  \<open>bare_table n\<close> is the table \<open>n\<close> with no schema and \<open>select_from ts w rest\<close> the
  query \<^verbatim>\<open>SELECT ... FROM ts\<close> with the WITH clause \<open>w\<close> and the further children
  \<open>rest\<close>. \<open>cte_query\<close> is \<^verbatim>\<open>WITH foo AS (SELECT * FROM bar) SELECT * FROM foo\<close>,
  \<open>shadowing_query\<close> holds it as a subquery of \<^verbatim>\<open>SELECT * FROM foo\<close>, and \<open>nested_use_query\<close>
  is \<^verbatim>\<open>WITH foo AS (SELECT * FROM bar) SELECT * FROM baz\<close> with the subquery
  \<^verbatim>\<open>SELECT * FROM foo\<close> among its children. \<open>insert_from_cte_query\<close> is the statement of
  test/typings/test-d/insert.test-d.ts, lines 36 to 41,
  \<^verbatim>\<open>WITH foo AS (SELECT id FROM person WHERE ...) INSERT INTO movie (stars) VALUES ((SELECT foo.id FROM foo))\<close>,
  its column lists and its WHERE clause left out.
\<close>

definition bare_table :: "string \<Rightarrow> TableNode" where
  "bare_table n = TableNode (SchemableIdentifierNode None (IdentifierNode n))"

definition schema_table :: "string \<Rightarrow> string \<Rightarrow> TableNode" where
  "schema_table sch n =
     TableNode (SchemableIdentifierNode (Some (IdentifierNode sch)) (IdentifierNode n))"

definition select_from ::
  "TableNode list \<Rightarrow> WithNode option \<Rightarrow> OperationNode list \<Rightarrow> OperationNode" where
  "select_from ts w rest =
     Composite ''SelectQueryNode'' None (Some (FromNode (map Table ts))) None None None w rest"

definition with_foo_as_bar :: WithNode where
  "with_foo_as_bar =
     WithNode [CommonTableExpressionNode (CommonTableExpressionNameNode (bare_table ''foo'') None)
                 (select_from [bare_table ''bar''] None [])]"

definition cte_query :: OperationNode where
  "cte_query = select_from [bare_table ''foo''] (Some with_foo_as_bar) []"

definition shadowing_query :: OperationNode where
  "shadowing_query = select_from [bare_table ''foo''] None [cte_query]"

definition nested_use_query :: OperationNode where
  "nested_use_query =
     select_from [bare_table ''baz''] (Some with_foo_as_bar)
       [select_from [bare_table ''foo''] None []]"

definition insert_into ::
  "TableNode \<Rightarrow> WithNode option \<Rightarrow> OperationNode list \<Rightarrow> OperationNode" where
  "insert_into t w rest =
     Composite ''InsertQueryNode'' None None (Some (Table t)) None None w rest"

definition insert_from_cte_query :: OperationNode where
  "insert_from_cte_query =
     insert_into (bare_table ''movie'')
       (Some (WithNode [CommonTableExpressionNode
                (CommonTableExpressionNameNode (bare_table ''foo'') None)
                (select_from [bare_table ''person''] None [])]))
       [Composite ''ValuesNode'' None None None None None None
          [select_from [bare_table ''foo''] None []]]"

section \<open>The expression normalizer\<close>

text \<open>
  Modelled from the spec: a JavaScript value, by what the normalizer asks of it. The
  helpers \<^verbatim>\<open>isOperationNodeSource\<close>, \<^verbatim>\<open>isFunction\<close>, \<^verbatim>\<open>isObject\<close> and
  \<^verbatim>\<open>createExpressionBuilder\<close> are not among the sources. A value is an object
  (\<^verbatim>\<open>typeof\<close> gives \<^verbatim>\<open>'object'\<close> and it is not \<^verbatim>\<open>null\<close>), a function, or a primitive
  (a string, number, boolean, bigint, symbol, \<^verbatim>\<open>null\<close> or \<^verbatim>\<open>undefined\<close>). An object and a
  function may have the property \<^verbatim>\<open>toOperationNode\<close>, a function that returns a node with
  no side effect (\<open>Some n\<close>: the property is there and returns \<open>n\<close>). The text that
  \<^verbatim>\<open>JSON.stringify\<close> gives for the value, as a template literal prints it, is \<open>Some s\<close>;
  it is \<open>None\<close> when \<^verbatim>\<open>JSON.stringify\<close> throws a \<^verbatim>\<open>TypeError\<close>, as it does on a bigint
  and on an object that holds a cycle. An expression builder handle is known by the number of
  its construction.
\<close>

datatype ExpressionBuilder = ExpressionBuilder nat

datatype js_value =
    JsObject "OperationNode option" "string option"
  | JsFunction "ExpressionBuilder \<Rightarrow> js_value" "OperationNode option"
  | JsPrimitive "string option"

fun isObject :: "js_value \<Rightarrow> bool" where
  "isObject (JsObject _ _) = True"
| "isObject _ = False"

fun isFunction :: "js_value \<Rightarrow> bool" where
  "isFunction (JsFunction _ _) = True"
| "isFunction _ = False"

fun toOperationNode :: "js_value \<Rightarrow> OperationNode option" where
  "toOperationNode (JsObject accessor _) = accessor"
| "toOperationNode (JsFunction _ accessor) = accessor"
| "toOperationNode (JsPrimitive _) = None"

fun call :: "js_value \<Rightarrow> (ExpressionBuilder \<Rightarrow> js_value) option" where
  "call (JsFunction f _) = Some f"
| "call _ = None"

fun JSON_stringify :: "js_value \<Rightarrow> string option" where
  "JSON_stringify (JsObject _ text) = text"
| "JSON_stringify (JsFunction _ _) = Some ''undefined''"
| "JSON_stringify (JsPrimitive text) = text"

text \<open>
  Modelled from the spec: \<^verbatim>\<open>isOperationNodeSource\<close> checks that the value exposes the
  accessor (4.1). It is taken to ask for an object first, as the predicates
  \<^verbatim>\<open>isExpression\<close> and \<^verbatim>\<open>isAliasedExpression\<close> of expression.ts do
  (\<^verbatim>\<open>isObject(obj) && ...\<close>): a function that has the property is no node source.
\<close>

definition isOperationNodeSource :: "js_value \<Rightarrow> bool" where
  "isOperationNodeSource obj = (isObject obj \<and> toOperationNode obj \<noteq> None)"

text \<open>
  What a run of the normalizer can be seen to do besides returning: \<open>builders\<close> counts
  the expression builder handles constructed so far, \<open>invocations\<close> lists the calls of
  the input as a factory, each by the handle it was given.
\<close>

record effects =
  builders :: nat
  invocations :: "ExpressionBuilder list"

definition createExpressionBuilder :: "effects \<Rightarrow> ExpressionBuilder \<times> effects" where
  "createExpressionBuilder e = (ExpressionBuilder (builders e), e\<lparr>builders := Suc (builders e)\<rparr>)"

text \<open>
  A thrown \<^verbatim>\<open>Error\<close> with its message, and a thrown \<^verbatim>\<open>TypeError\<close>: of
  \<^verbatim>\<open>JSON.stringify\<close>, or of the call of \<^verbatim>\<open>toOperationNode\<close> on a factory's result that
  does not have it.
\<close>

datatype error = Error string | TypeError

text \<open>
  \<^verbatim>\<open>parseExpression\<close> and \<^verbatim>\<open>parseAliasedExpression\<close> (parser/expression-parser.ts). The
  message of the error is built before the error is thrown, so a throw of
  \<^verbatim>\<open>JSON.stringify\<close> comes instead of it.
\<close>

definition parseExpression :: "js_value \<Rightarrow> effects \<Rightarrow> (error + OperationNode) \<times> effects" where
  "parseExpression exp e =
     (if isOperationNodeSource exp then (Inr (the (toOperationNode exp)), e)
      else if isFunction exp then
        (case createExpressionBuilder e of (eb, e1) \<Rightarrow>
           let result = the (call exp) eb;
               e2 = e1\<lparr>invocations := invocations e1 @ [eb]\<rparr>
           in (case toOperationNode result of
                 Some node \<Rightarrow> (Inr node, e2)
               | None \<Rightarrow> (Inl TypeError, e2)))
      else (case JSON_stringify exp of
              Some text \<Rightarrow> (Inl (Error (''invalid expression: '' @ text)), e)
            | None \<Rightarrow> (Inl TypeError, e)))"

definition parseAliasedExpression ::
  "js_value \<Rightarrow> effects \<Rightarrow> (error + OperationNode) \<times> effects" where
  "parseAliasedExpression exp e =
     (if isOperationNodeSource exp then (Inr (the (toOperationNode exp)), e)
      else if isFunction exp then
        (case createExpressionBuilder e of (eb, e1) \<Rightarrow>
           let result = the (call exp) eb;
               e2 = e1\<lparr>invocations := invocations e1 @ [eb]\<rparr>
           in (case toOperationNode result of
                 Some node \<Rightarrow> (Inr node, e2)
               | None \<Rightarrow> (Inl TypeError, e2)))
      else (case JSON_stringify exp of
              Some text \<Rightarrow> (Inl (Error (''invalid aliased expression: '' @ text)), e)
            | None \<Rightarrow> (Inl TypeError, e)))"

text \<open>
  The accepted inputs of \<^verbatim>\<open>parseAliasedExpression\<close>, typed
  \<^verbatim>\<open>AliasedExpressionOrFactory\<close>: an \<^verbatim>\<open>AliasedExpression\<close>, or a function from a builder
  handle to one. An \<^verbatim>\<open>Expression\<close> carries its node. Modelled from the spec: the
  interface declares \<^verbatim>\<open>toOperationNode(): AliasNode\<close> and the sources hold no
  implementation of it; the node is the one of the interface's documented example,
  \<^verbatim>\<open>AliasNode.create(this.#expression.toOperationNode(), IdentifierNode.create(this.#alias))\<close>,
  which is what the spec (3) says of every aliased expression. The serialized form is
  that of an object with private fields only.
\<close>

datatype Expression = Expression (expression_node: OperationNode)

datatype AliasedExpression = AliasedExpression (expression_of: Expression) (alias_name: string)

definition AliasedExpression_toOperationNode :: "AliasedExpression \<Rightarrow> OperationNode" where
  "AliasedExpression_toOperationNode a =
     Alias (expression_node (expression_of a)) (Identifier (IdentifierNode (alias_name a)))"

definition aliased_source :: "AliasedExpression \<Rightarrow> js_value" where
  "aliased_source a = JsObject (Some (AliasedExpression_toOperationNode a)) (Some ''{}'')"

definition aliased_factory :: "(ExpressionBuilder \<Rightarrow> AliasedExpression) \<Rightarrow> js_value" where
  "aliased_factory f = JsFunction (\<lambda>eb. aliased_source (f eb)) None"

section \<open>The compiled query\<close>

text \<open>
  query-compiler/compiled-query.ts, in its two versions: the interface without
  \<^verbatim>\<open>queryId\<close> and the one with it. Modelled from the spec: \<^verbatim>\<open>RawNode.createWithSql\<close>
  and \<^verbatim>\<open>createQueryId\<close> are not among the sources; the first gives the raw root node
  that wraps the string, the second an identifier that no earlier call gave (the state
  is the number of identifiers generated so far).
\<close>

datatype QueryId = QueryId nat

record CompiledQuery_without_queryId =
  query :: OperationNode
  sql :: string
  parameters :: "js_value list"

record CompiledQuery = CompiledQuery_without_queryId +
  queryId :: QueryId

definition RawNode_createWithSql :: "string \<Rightarrow> OperationNode" where
  "RawNode_createWithSql s = Raw [s] []"

definition createQueryId :: "nat \<Rightarrow> QueryId \<times> nat" where
  "createQueryId n = (QueryId n, Suc n)"

definition raw_without_queryId :: "string \<Rightarrow> CompiledQuery_without_queryId" where
  "raw_without_queryId s = \<lparr>query = RawNode_createWithSql s, sql = s, parameters = []\<rparr>"

definition raw :: "string \<Rightarrow> nat \<Rightarrow> CompiledQuery \<times> nat" where
  "raw s n =
     (case createQueryId n of (qid, n1) \<Rightarrow>
        (\<lparr>query = RawNode_createWithSql s, sql = s, parameters = [], queryId = qid\<rparr>, n1))"

section \<open>Properties of the schema-qualification transformer\<close>

subsection \<open>The override and the engine\<close>

text \<open>
  The equations of \<^verbatim>\<open>transformNodeImpl\<close> as the class has them: the override brackets
  the engine's traversal of a root node, and the engine hands every child to the override.
\<close>

lemma transformNodeImpl_unfold:
  "transformNodeImpl sch node ids =
     (if \<not> isRootOperationNode node then super_transformNodeImpl sch node ids
      else
        let tables = collectSchemableIds ids node;
            ids1 = ids \<union> tables
        in case super_transformNodeImpl sch node ids1 of
             (transformed, ids2) \<Rightarrow> (transformed, ids2 - tables))"
  by (simp add: transformNodeImpl_def transformNodeImpl_override_def)

lemma override_is_transformNodeImpl:
  "(\<lambda>n. transformNodeImpl_override (super_transformNodeImpl sch n) n) = transformNodeImpl sch"
  by (rule ext) (simp add: transformNodeImpl_def)

lemma super_transformNodeImpl_children:
  "super_transformNodeImpl sch (Alias n a) ids =
     (case transformNodeImpl sch n ids of (n', ids1) \<Rightarrow>
      case transformNodeImpl sch a ids1 of (a', ids2) \<Rightarrow> (Alias n' a', ids2))"
  "super_transformNodeImpl sch (Raw fragments ps) ids =
     (case traverse_list (map (transformNodeImpl sch) ps) ids of
        (ps', ids1) \<Rightarrow> (Raw fragments ps', ids1))"
  "super_transformNodeImpl sch (Composite k nm fr into tbl js w rest) ids =
     (case traverse_option (map_option (transformNodeImpl sch) nm) ids of (nm', ids1) \<Rightarrow>
      case traverse_option (map_option (transformFrom sch) fr) ids1 of (fr', ids2) \<Rightarrow>
      case traverse_option (map_option (transformNodeImpl sch) into) ids2 of (into', ids3) \<Rightarrow>
      case traverse_option (map_option (transformNodeImpl sch) tbl) ids3 of (tbl', ids4) \<Rightarrow>
      case traverse_option (map_option traverse_list (map_option (map (transformJoin sch)) js)) ids4
      of (js', ids5) \<Rightarrow>
      case traverse_option (map_option (transformWith sch) w) ids5 of (w', ids6) \<Rightarrow>
      case traverse_list (map (transformNodeImpl sch) rest) ids6 of (rest', ids7) \<Rightarrow>
        (Composite k nm' fr' into' tbl' js' w' rest', ids7))"
  "transformFrom sch (FromNode fs) ids =
     (case traverse_list (map (transformNodeImpl sch) fs) ids of
        (fs', ids1) \<Rightarrow> (FromNode fs', ids1))"
  "transformJoin sch (JoinNode jt t on) ids =
     (case transformNodeImpl sch t ids of (t', ids1) \<Rightarrow>
      case traverse_option (map_option (transformNodeImpl sch) on) ids1 of (on', ids2) \<Rightarrow>
        (JoinNode jt t' on', ids2))"
  "transformCommonTableExpression sch (CommonTableExpressionNode c e) ids =
     (case transformNodeImpl sch e ids of (e', ids1) \<Rightarrow>
        (CommonTableExpressionNode (transformCommonTableExpressionName sch ids c) e', ids1))"
  by (simp_all add: override_is_transformNodeImpl) (simp_all add: transformNodeImpl_def)


subsection \<open>Evaluation on concrete trees\<close>

lemmas transformer_eval =
  withSchema_def transformNode_def transformNodeImpl_def transformNodeImpl_override_def
  isRootOperationNode_def ROOT_OPERATION_NODES_def collectSchemableIds_def
  collectSchemableIdsFromTableExpr_def collectSchemableId_def
  removeCommonTableExpressionTables_def transformSchemableIdentifier_def
  super_transformSchemableIdentifier_def transformIdentifier_def transformTable_def
  transformCommonTableExpressionName_def Let_def

lemmas example_eval =
  bare_table_def schema_table_def select_from_def with_foo_as_bar_def cte_query_def
  shadowing_query_def nested_use_query_def insert_into_def insert_from_cte_query_def


subsection \<open>What a root node collects\<close>

text \<open>
  \<^verbatim>\<open>#collectSchemableId\<close> adds a name only if the transformer's set does not hold it, so
  the loops of \<^verbatim>\<open>#collectSchemableIds\<close> add the listed names outside that set, and
  \<^verbatim>\<open>#removeCommonTableExpressionTables\<close> then takes the WITH names away.
\<close>

lemma collectFromTableExpr_eq:
  "collectSchemableIdsFromTableExpr ids node A = A \<union> (underlying_table_names node - ids)"
  by (cases node rule: underlying_table_names.cases)
     (auto simp: collectSchemableIdsFromTableExpr_def collectSchemableId_def Let_def)

lemma fold_collectFromTableExpr:
  "fold (collectSchemableIdsFromTableExpr ids) xs A
     = A \<union> (\<Union> (underlying_table_names ` set xs) - ids)"
  by (induction xs arbitrary: A) (auto simp: collectFromTableExpr_eq)

lemma fold_collectFromJoin:
  "fold (\<lambda>j. collectSchemableIdsFromTableExpr ids (join_table j)) js A
     = A \<union> (\<Union> ((\<lambda>j. underlying_table_names (join_table j)) ` set js) - ids)"
  by (induction js arbitrary: A) (auto simp: collectFromTableExpr_eq)

lemma fold_remove:
  "fold (\<lambda>e A. A - {f e}) es A = A - f ` set es"
  by (induction es arbitrary: A) auto

lemma removeCTE_eq:
  "removeCommonTableExpressionTables w A
     = A - (\<lambda>e. name (ident (table (cte_table (cte_name e))))) ` set (expressions w)"
  by (simp add: removeCommonTableExpressionTables_def fold_remove)

lemma collectSchemableIds_eq:
  "collectSchemableIds ids node = (listed_table_names node - ids) - with_bound_names node"
  unfolding collectSchemableIds_def listed_table_names_def with_bound_names_def Let_def
  by (auto simp: fold_collectFromTableExpr fold_collectFromJoin removeCTE_eq collectFromTableExpr_eq
        collectSchemableId_def
      split: option.splits OperationNode.splits)

lemma collectSchemableIds_disjoint: "collectSchemableIds ids node \<inter> ids = {}"
  by (auto simp: collectSchemableIds_eq)

lemma collect_subset_own:
  "isRootOperationNode c \<Longrightarrow> collectSchemableIds ids c \<subseteq> own_tables c"
  by (auto simp: collectSchemableIds_eq own_tables_def)

text \<open>
  Claim C4, as amended. On entering any root operation node, the set of table names
  collected for qualification is exactly: the node's own name when it is a schemable
  identifier, every table expression of its FROM list, its INTO target, its TABLE target and
  the table of every join, each resolved through an optional alias to the underlying table
  (an expression that is neither a table nor an alias of a table contributes nothing),
  without the names that the transformer's set of locally bound table names already holds,
  and without the names bound by the node's WITH clause.
\<close>

theorem collected_names:
  "collectSchemableIds ids node = (listed_table_names node - ids) - with_bound_names node"
  by (rule collectSchemableIds_eq)

text \<open>
  The amended claim on \<^verbatim>\<open>WITH foo AS (...) SELECT * FROM t, foo, u\<close> entered while \<open>t\<close> is
  bound by an enclosing query: only \<open>u\<close> is collected.
\<close>

theorem collected_names_witness:
  "collectSchemableIds {''t''} (select_from [bare_table ''t'', bare_table ''foo'', bare_table ''u'']
                                  (Some with_foo_as_bar) [])
     = {''u''}
   \<and> listed_table_names (select_from [bare_table ''t'', bare_table ''foo'', bare_table ''u'']
                                  (Some with_foo_as_bar) [])
     = {''t'', ''foo'', ''u''}
   \<and> with_bound_names (select_from [bare_table ''t'', bare_table ''foo'', bare_table ''u'']
                                  (Some with_foo_as_bar) [])
     = {''foo''}"
  using collected_names [of "{''t''}" "select_from [bare_table ''t'', bare_table ''foo'', bare_table ''u'']
                                  (Some with_foo_as_bar) []"]
  by (auto simp: example_eval listed_table_names_def with_bound_names_def)

text \<open>
  Claim C4 as worded leaves out the guard of \<^verbatim>\<open>#collectSchemableId\<close>: it says that
  the collected set is the listed names without the WITH names, whatever the transformer's
  set holds. On \<^verbatim>\<open>SELECT * FROM t\<close> entered while \<open>t\<close> is already bound, nothing is
  collected.
\<close>

theorem collected_names_counterexample:
  "\<not> (\<forall>ids node. isRootOperationNode node \<longrightarrow>
         collectSchemableIds ids node = listed_table_names node - with_bound_names node)"
proof
  assume "\<forall>ids node. isRootOperationNode node \<longrightarrow>
         collectSchemableIds ids node = listed_table_names node - with_bound_names node"
  then have "isRootOperationNode (select_from [bare_table ''t''] None []) \<longrightarrow>
      collectSchemableIds {''t''} (select_from [bare_table ''t''] None [])
        = listed_table_names (select_from [bare_table ''t''] None [])
          - with_bound_names (select_from [bare_table ''t''] None [])"
    by blast
  then show False
    by (simp add: transformer_eval example_eval listed_table_names_def with_bound_names_def)
qed


subsection \<open>The set of locally bound names is restored\<close>

lemma override_restores:
  assumes "\<And>ids. snd (m ids) = ids"
  shows "snd (transformNodeImpl_override m node ids) = ids"
proof (cases "isRootOperationNode node")
  case False
  then show ?thesis by (simp add: transformNodeImpl_override_def assms)
next
  case True
  let ?tables = "collectSchemableIds ids node"
  obtain t ids2 where m: "m (ids \<union> ?tables) = (t, ids2)"
    by (cases "m (ids \<union> ?tables)")
  have "snd (m (ids \<union> ?tables)) = ids \<union> ?tables"
    by (rule assms)
  with m have "ids2 = ids \<union> ?tables" by simp
  moreover have "(ids \<union> ?tables) - ?tables = ids"
    using collectSchemableIds_disjoint [of ids node] by auto
  ultimately show ?thesis
    using True m by (simp add: transformNodeImpl_override_def Let_def)
qed

lemma traverse_list_restores:
  assumes "\<And>m ids. m \<in> set ms \<Longrightarrow> snd (m ids) = ids"
  shows "snd (traverse_list ms ids) = ids"
  using assms
proof (induction ms arbitrary: ids)
  case Nil
  then show ?case by simp
next
  case (Cons m ms)
  have "snd (m ids) = ids" by (rule Cons.prems) simp
  moreover have "snd (traverse_list ms ids) = ids"
    by (rule Cons.IH) (simp add: Cons.prems)
  ultimately show ?case by (simp add: case_prod_beta)
qed

lemma traverse_option_restores:
  assumes "\<And>m ids. m \<in> set_option mo \<Longrightarrow> snd (m ids) = ids"
  shows "snd (traverse_option mo ids) = ids"
proof (cases mo)
  case None
  then show ?thesis by simp
next
  case (Some m)
  then have "snd (m ids) = ids" by (simp add: assms)
  with Some show ?thesis by (simp add: case_prod_beta)
qed

lemma traverse_list_map_restores:
  assumes "\<And>x ids. x \<in> set xs \<Longrightarrow> snd (g x ids) = ids"
  shows "snd (traverse_list (map g xs) ids) = ids"
  by (rule traverse_list_restores) (auto simp: assms)

lemma traverse_option_map_restores:
  assumes "\<And>x ids. x \<in> set_option xo \<Longrightarrow> snd (g x ids) = ids"
  shows "snd (traverse_option (map_option g xo) ids) = ids"
  by (rule traverse_option_restores) (auto simp: assms)

lemma engine_restores:
  shows "snd (super_transformNodeImpl sch node ids) = ids"
    and "snd (transformFrom sch fr ids) = ids"
    and "snd (transformJoin sch j ids) = ids"
    and "snd (transformWith sch w ids) = ids"
    and "snd (transformCommonTableExpression sch c ids) = ids"
proof (induction node and fr and j and w and c arbitrary: ids and ids and ids and ids and ids)
  case (Alias n a)
  then show ?case
    by (simp add: override_restores case_prod_beta)
next
  case (Raw fragments ps)
  then show ?case
    by (simp add: override_restores traverse_list_map_restores case_prod_beta)
next
  case (Composite k nm fr into tbl js w rest)
  have nm: "snd (traverse_option
                  (map_option (\<lambda>n. transformNodeImpl_override (super_transformNodeImpl sch n) n) nm) s) = s"
    for s
    by (rule traverse_option_map_restores) (simp add: override_restores Composite.IH(1))
  have fr: "snd (traverse_option (map_option (transformFrom sch) fr) s) = s" for s
    by (rule traverse_option_map_restores) (simp add: Composite.IH(2))
  have into: "snd (traverse_option
                  (map_option (\<lambda>n. transformNodeImpl_override (super_transformNodeImpl sch n) n) into) s) = s"
    for s
    by (rule traverse_option_map_restores) (simp add: override_restores Composite.IH(3))
  have tbl: "snd (traverse_option
                  (map_option (\<lambda>n. transformNodeImpl_override (super_transformNodeImpl sch n) n) tbl) s) = s"
    for s
    by (rule traverse_option_map_restores) (simp add: override_restores Composite.IH(4))
  have js: "snd (traverse_option
                  (map_option traverse_list (map_option (map (transformJoin sch)) js)) s) = s"
    for s
    unfolding option.map_comp comp_def
    by (rule traverse_option_map_restores, rule traverse_list_map_restores)
       (simp add: Composite.IH(5))
  have w: "snd (traverse_option (map_option (transformWith sch) w) s) = s" for s
    by (rule traverse_option_map_restores) (simp add: Composite.IH(6))
  have rest: "snd (traverse_list
                  (map (\<lambda>n. transformNodeImpl_override (super_transformNodeImpl sch n) n) rest) s) = s"
    for s
    by (rule traverse_list_map_restores) (simp add: override_restores Composite.IH(7))
  show ?case
    by (simp add: case_prod_beta nm fr into tbl js w rest)
next
  case (FromNode fs)
  then show ?case
    by (simp add: override_restores traverse_list_map_restores case_prod_beta)
next
  case (JoinNode jt t on)
  have on: "snd (traverse_option
                  (map_option (\<lambda>n. transformNodeImpl_override (super_transformNodeImpl sch n) n) on) s) = s"
    for s
    by (rule traverse_option_map_restores) (simp add: override_restores JoinNode.IH(2))
  show ?case
    by (simp add: case_prod_beta on override_restores JoinNode.IH(1))
next
  case (WithNode es)
  then show ?case
    by (simp add: traverse_list_map_restores case_prod_beta)
next
  case (CommonTableExpressionNode n e)
  then show ?case
    by (simp add: override_restores case_prod_beta)
qed (simp_all)

lemma transformNodeImpl_restores: "snd (transformNodeImpl sch node ids) = ids"
  by (simp add: transformNodeImpl_def override_restores engine_restores)

text \<open>
  Claim C2. For every node, after \<^verbatim>\<open>transformNodeImpl\<close> returns, the transformer's set
  of locally bound table names is what it was before the call. On entering a root node the
  names collected for it are added, none of which the set held; the engine's traversal of
  the node returns the enlarged set; on leaving, the collected names are removed, which
  gives the set of before, so the bindings of an enclosing level survive a nested root node.
\<close>

theorem schemableIds_restored:
  "snd (transformNodeImpl sch node ids) = ids
   \<and> collectSchemableIds ids node \<inter> ids = {}
   \<and> (isRootOperationNode node \<longrightarrow>
        snd (super_transformNodeImpl sch node (ids \<union> collectSchemableIds ids node))
          = ids \<union> collectSchemableIds ids node
        \<and> transformNodeImpl sch node ids
          = (fst (super_transformNodeImpl sch node (ids \<union> collectSchemableIds ids node)),
             (ids \<union> collectSchemableIds ids node) - collectSchemableIds ids node))"
proof (intro conjI impI)
  show "snd (transformNodeImpl sch node ids) = ids"
    by (rule transformNodeImpl_restores)
  show "collectSchemableIds ids node \<inter> ids = {}"
    by (rule collectSchemableIds_disjoint)
  show r: "snd (super_transformNodeImpl sch node (ids \<union> collectSchemableIds ids node))
          = ids \<union> collectSchemableIds ids node"
    by (rule engine_restores(1))
  assume "isRootOperationNode node"
  then show "transformNodeImpl sch node ids
          = (fst (super_transformNodeImpl sch node (ids \<union> collectSchemableIds ids node)),
             (ids \<union> collectSchemableIds ids node) - collectSchemableIds ids node)"
    using r by (simp add: transformNodeImpl_def transformNodeImpl_override_def Let_def case_prod_beta)
qed

text \<open>
  Claim C2 on \<^verbatim>\<open>SELECT * FROM t, u\<close> entered while \<open>t\<close> is bound by an enclosing query:
  \<open>u\<close> is added and removed, \<open>t\<close> stays.
\<close>

theorem schemableIds_restored_witness:
  "isRootOperationNode (select_from [bare_table ''t'', bare_table ''u''] None [])
   \<and> collectSchemableIds {''t''} (select_from [bare_table ''t'', bare_table ''u''] None []) = {''u''}
   \<and> snd (super_transformNodeImpl ''s'' (select_from [bare_table ''t'', bare_table ''u''] None [])
            {''t'', ''u''}) = {''t'', ''u''}
   \<and> transformNodeImpl ''s'' (select_from [bare_table ''t'', bare_table ''u''] None []) {''t''}
       = (select_from [schema_table ''s'' ''t'', schema_table ''s'' ''u''] None [], {''t''})"
  using schemableIds_restored [of "''s''" "select_from [bare_table ''t'', bare_table ''u''] None []"
      "{''t''}"]
  by (simp add: transformer_eval example_eval insert_commute)


subsection \<open>Schemable identifiers\<close>

lemma transformIdentifier_id: "transformIdentifier = id"
  by (rule ext) (simp add: transformIdentifier_def)

lemma super_transformSchemableIdentifier_id: "super_transformSchemableIdentifier node = node"
  by (cases node)
     (simp add: super_transformSchemableIdentifier_def transformIdentifier_id option.map_id)

lemma transformSchemableIdentifier_name:
  "name (ident (transformSchemableIdentifier sch ids i)) = name (ident i)"
  by (simp add: transformSchemableIdentifier_def super_transformSchemableIdentifier_id Let_def)

lemma transformSchemableIdentifier_idem:
  "transformSchemableIdentifier sch ids (transformSchemableIdentifier sch ids i)
     = transformSchemableIdentifier sch ids i"
  by (simp add: transformSchemableIdentifier_def super_transformSchemableIdentifier_id Let_def)

text \<open>
  Claim C3. For every schemable identifier node, the transformer returns it unchanged when
  it already carries a schema, returns a copy with the schema set to the configured schema
  when it carries none and its bare name is among the locally bound table names, and
  returns it unchanged otherwise.
\<close>

theorem transformSchemableIdentifier_cases:
  "(schema node \<noteq> None \<longrightarrow> transformSchemableIdentifier sch ids node = node)
   \<and> (schema node = None \<and> name (ident node) \<in> ids \<longrightarrow>
        transformSchemableIdentifier sch ids node
          = SchemableIdentifierNode (Some (IdentifierNode sch)) (ident node))
   \<and> (schema node = None \<and> name (ident node) \<notin> ids \<longrightarrow>
        transformSchemableIdentifier sch ids node = node)"
  by (cases node)
     (simp add: transformSchemableIdentifier_def super_transformSchemableIdentifier_id Let_def)

text \<open>
  Claim C3 on \<open>other.t\<close>, \<open>t\<close> and \<open>c\<close> while \<open>t\<close> is bound.
\<close>

theorem transformSchemableIdentifier_cases_witness:
  "transformSchemableIdentifier ''s'' {''t''}
       (SchemableIdentifierNode (Some (IdentifierNode ''other'')) (IdentifierNode ''t''))
     = SchemableIdentifierNode (Some (IdentifierNode ''other'')) (IdentifierNode ''t'')
   \<and> transformSchemableIdentifier ''s'' {''t''} (SchemableIdentifierNode None (IdentifierNode ''t''))
     = SchemableIdentifierNode (Some (IdentifierNode ''s'')) (IdentifierNode ''t'')
   \<and> transformSchemableIdentifier ''s'' {''t''} (SchemableIdentifierNode None (IdentifierNode ''c''))
     = SchemableIdentifierNode None (IdentifierNode ''c'')"
  using transformSchemableIdentifier_cases [of
      "SchemableIdentifierNode (Some (IdentifierNode ''other'')) (IdentifierNode ''t'')" "''s''" "{''t''}"]
    transformSchemableIdentifier_cases [of
      "SchemableIdentifierNode None (IdentifierNode ''t'')" "''s''" "{''t''}"]
    transformSchemableIdentifier_cases [of
      "SchemableIdentifierNode None (IdentifierNode ''c'')" "''s''" "{''t''}"]
  by simp


subsection \<open>The tree that a traversal returns\<close>

text \<open>
  Since every traversal returns the set it was given, the returned tree is the node rebuilt
  from its children's trees, each under the same set; a root node's children are
  transformed under the set enlarged by what the node collects.
\<close>

lemma traverse_list_fst:
  assumes "\<And>m ids. m \<in> set ms \<Longrightarrow> snd (m ids) = ids"
  shows "fst (traverse_list ms ids) = map (\<lambda>m. fst (m ids)) ms"
  using assms
proof (induction ms arbitrary: ids)
  case Nil
  then show ?case by simp
next
  case (Cons m ms)
  have "snd (m ids) = ids" by (rule Cons.prems) simp
  moreover have "fst (traverse_list ms ids) = map (\<lambda>m. fst (m ids)) ms"
    by (rule Cons.IH) (simp add: Cons.prems)
  ultimately show ?case by (simp add: case_prod_beta)
qed

lemma traverse_option_fst:
  "fst (traverse_option mo ids) = map_option (\<lambda>m. fst (m ids)) mo"
  by (cases mo) (simp_all add: case_prod_beta)

lemma traverse_list_map_fst:
  assumes "\<And>x ids. x \<in> set xs \<Longrightarrow> snd (g x ids) = ids"
  shows "fst (traverse_list (map g xs) ids) = map (\<lambda>x. fst (g x ids)) xs"
proof -
  have "fst (traverse_list (map g xs) ids) = map (\<lambda>m. fst (m ids)) (map g xs)"
    by (rule traverse_list_fst) (auto simp: assms)
  then show ?thesis by (simp add: comp_def)
qed

lemma traverse_option_map_fst:
  "fst (traverse_option (map_option g xo) ids) = map_option (\<lambda>x. fst (g x ids)) xo"
  by (simp add: traverse_option_fst option.map_comp comp_def)

lemma override_fst:
  "fst (transformNodeImpl_override m node ids)
     = (if isRootOperationNode node then fst (m (ids \<union> collectSchemableIds ids node))
        else fst (m ids))"
  by (simp add: transformNodeImpl_override_def Let_def case_prod_beta)

lemma qualify_eq:
  "qualify sch ids node
     = (if isRootOperationNode node
        then qualify_super sch (ids \<union> collectSchemableIds ids node) node
        else qualify_super sch ids node)"
  by (simp add: qualify_def qualify_super_def transformNodeImpl_def override_fst)

lemma override_engine_fst:
  "fst (transformNodeImpl_override (super_transformNodeImpl sch n) n ids) = qualify sch ids n"
  by (simp add: qualify_def transformNodeImpl_def)

lemma override_engine_snd:
  "snd (transformNodeImpl_override (super_transformNodeImpl sch n) n ids) = ids"
  by (simp add: override_restores engine_restores)

lemma traverse_nodes_fst:
  "fst (traverse_list
         (map (\<lambda>n. transformNodeImpl_override (super_transformNodeImpl sch n) n) ns) ids)
     = map (qualify sch ids) ns"
  by (simp add: traverse_list_map_fst override_engine_snd override_engine_fst)

lemma traverse_nodes_snd:
  "snd (traverse_list
         (map (\<lambda>n. transformNodeImpl_override (super_transformNodeImpl sch n) n) ns) ids)
     = ids"
  by (simp add: traverse_list_map_restores override_engine_snd)

lemma traverse_node_option_fst:
  "fst (traverse_option
         (map_option (\<lambda>n. transformNodeImpl_override (super_transformNodeImpl sch n) n) no) ids)
     = map_option (qualify sch ids) no"
  by (simp add: traverse_option_map_fst override_engine_fst)

lemma traverse_node_option_snd:
  "snd (traverse_option
         (map_option (\<lambda>n. transformNodeImpl_override (super_transformNodeImpl sch n) n) no) ids)
     = ids"
  by (simp add: traverse_option_map_restores override_engine_snd)

lemma traverse_option_engine_snd:
  "snd (traverse_option (map_option (transformFrom sch) fr) ids) = ids"
  "snd (traverse_option (map_option (transformWith sch) w) ids) = ids"
  "snd (traverse_option (map_option traverse_list (map_option (map (transformJoin sch)) js)) ids)
     = ids"
  unfolding option.map_comp comp_def
  by (simp_all add: traverse_option_map_restores traverse_list_map_restores engine_restores)

lemma traverse_joins_fst:
  "fst (traverse_option (map_option traverse_list (map_option (map (transformJoin sch)) js)) ids)
     = map_option (map (qualify_join sch ids)) js"
  unfolding option.map_comp comp_def
  by (cases js)
     (simp_all add: case_prod_beta traverse_list_map_fst engine_restores qualify_join_def)

lemma traverse_option_engine_fst:
  "fst (traverse_option (map_option (transformFrom sch) fr) ids)
     = map_option (qualify_from sch ids) fr"
  "fst (traverse_option (map_option (transformWith sch) w) ids)
     = map_option (qualify_with sch ids) w"
  by (cases fr; cases w; simp add: case_prod_beta qualify_from_def qualify_with_def)+

lemma qualify_super_simps:
  "qualify_super sch ids (Identifier i) = Identifier i"
  "qualify_super sch ids (SchemableIdentifier si) =
     SchemableIdentifier (transformSchemableIdentifier sch ids si)"
  "qualify_super sch ids (Table t) = Table (transformTable sch ids t)"
  "qualify_super sch ids (Alias n a) = Alias (qualify sch ids n) (qualify sch ids a)"
  "qualify_super sch ids (Raw fragments ps) = Raw fragments (map (qualify sch ids) ps)"
  "qualify_super sch ids (Composite k nm fr into tbl js w rest) =
     Composite k (map_option (qualify sch ids) nm) (map_option (qualify_from sch ids) fr)
       (map_option (qualify sch ids) into) (map_option (qualify sch ids) tbl)
       (map_option (map (qualify_join sch ids)) js) (map_option (qualify_with sch ids) w)
       (map (qualify sch ids) rest)"
  by (simp_all add: qualify_super_def transformIdentifier_def case_prod_beta
        override_engine_fst override_engine_snd traverse_nodes_fst traverse_nodes_snd
        traverse_node_option_fst traverse_node_option_snd traverse_option_engine_snd
        traverse_joins_fst traverse_option_engine_fst)

lemma qualify_parts_simps:
  "qualify_from sch ids (FromNode fs) = FromNode (map (qualify sch ids) fs)"
  "qualify_join sch ids (JoinNode jt t on) =
     JoinNode jt (qualify sch ids t) (map_option (qualify sch ids) on)"
  "qualify_with sch ids (WithNode es) = WithNode (map (qualify_cte sch ids) es)"
  "qualify_cte sch ids (CommonTableExpressionNode n e) =
     CommonTableExpressionNode (transformCommonTableExpressionName sch ids n) (qualify sch ids e)"
  by (simp_all add: qualify_from_def qualify_join_def qualify_with_def qualify_cte_def
        case_prod_beta override_engine_fst override_engine_snd traverse_nodes_fst
        traverse_node_option_fst traverse_list_map_fst engine_restores)

lemma not_root_simps:
  "\<not> isRootOperationNode (Identifier i)"
  "\<not> isRootOperationNode (SchemableIdentifier si)"
  "\<not> isRootOperationNode (Table t)"
  "\<not> isRootOperationNode (Alias n a)"
  by (simp_all add: isRootOperationNode_def ROOT_OPERATION_NODES_def)

lemma qualify_simps:
  "qualify sch ids (Identifier i) = Identifier i"
  "qualify sch ids (SchemableIdentifier si) =
     SchemableIdentifier (transformSchemableIdentifier sch ids si)"
  "qualify sch ids (Table t) = Table (transformTable sch ids t)"
  "qualify sch ids (Alias n a) = Alias (qualify sch ids n) (qualify sch ids a)"
  by (simp_all add: qualify_eq not_root_simps qualify_super_simps)


subsection \<open>Applying the transformer twice\<close>

text \<open>
  The transformer changes schemas only, so the transformed tree has the kinds, the listed
  table names and the WITH names of the tree it came from, and a second traversal meets
  every identifier under the same set as the first.
\<close>

lemma kind_qualify_super: "kind (qualify_super sch ids n) = kind n"
  by (cases n) (simp_all add: qualify_super_simps)

lemma isRoot_qualify_super: "isRootOperationNode (qualify_super sch ids n) = isRootOperationNode n"
  by (simp add: isRootOperationNode_def kind_qualify_super)

lemma underlying_qualify_super:
  "underlying_table_names (qualify_super sch ids n) = underlying_table_names n"
proof (cases n)
  case (Alias m a)
  show ?thesis
  proof (cases m)
    case (Table t)
    with Alias show ?thesis
      by (simp add: qualify_super_simps qualify_simps transformTable_def
            transformSchemableIdentifier_name)
  next
    case (Raw fr ps)
    with Alias show ?thesis by (simp add: qualify_super_simps qualify_eq)
  next
    case (Composite k nm fr into tbl js w rest)
    with Alias show ?thesis by (simp add: qualify_super_simps qualify_eq)
  qed (simp_all add: Alias qualify_super_simps qualify_simps)
qed (simp_all add: qualify_super_simps transformTable_def transformSchemableIdentifier_name)

lemma underlying_qualify:
  "underlying_table_names (qualify sch ids n) = underlying_table_names n"
  by (simp add: qualify_eq underlying_qualify_super)

lemma own_name_qualify:
  "(case qualify sch ids m of SchemableIdentifier n \<Rightarrow> {name (ident n)} | _ \<Rightarrow> {})
     = (case m of SchemableIdentifier n \<Rightarrow> {name (ident n)} | _ \<Rightarrow> {})"
  by (cases m) (simp_all add: qualify_eq qualify_super_simps transformSchemableIdentifier_name)

lemma join_table_qualify: "join_table (qualify_join sch ids j) = qualify sch ids (join_table j)"
  by (cases j) (simp add: qualify_parts_simps)

lemma listed_qualify_super:
  "listed_table_names (qualify_super sch ids n) = listed_table_names n"
proof (cases n)
  case (Composite k nm fr into tbl js w rest)
  have nm: "(case map_option (qualify sch ids) nm of
               Some (SchemableIdentifier n) \<Rightarrow> {name (ident n)} | _ \<Rightarrow> {})
            = (case nm of Some (SchemableIdentifier n) \<Rightarrow> {name (ident n)} | _ \<Rightarrow> {})"
    using own_name_qualify by (cases nm) simp_all
  have fr: "(case map_option (qualify_from sch ids) fr of
               Some f \<Rightarrow> \<Union> (underlying_table_names ` set (froms f)) | None \<Rightarrow> {})
            = (case fr of Some f \<Rightarrow> \<Union> (underlying_table_names ` set (froms f)) | None \<Rightarrow> {})"
  proof (cases fr)
    case (Some f)
    then show ?thesis
      by (cases f) (simp add: qualify_parts_simps image_image underlying_qualify)
  qed simp
  have into: "(case map_option (qualify sch ids) x of
                 Some i \<Rightarrow> underlying_table_names i | None \<Rightarrow> {})
              = (case x of Some i \<Rightarrow> underlying_table_names i | None \<Rightarrow> {})" for x
    by (cases x) (simp_all add: underlying_qualify)
  have js: "(case map_option (map (qualify_join sch ids)) js of
               Some l \<Rightarrow> \<Union> ((\<lambda>j. underlying_table_names (join_table j)) ` set l) | None \<Rightarrow> {})
            = (case js of
                 Some l \<Rightarrow> \<Union> ((\<lambda>j. underlying_table_names (join_table j)) ` set l) | None \<Rightarrow> {})"
    by (cases js) (simp_all add: image_image join_table_qualify underlying_qualify)
  show ?thesis
    unfolding Composite qualify_super_simps listed_table_names_def name_field.simps
      from_field.simps into_field.simps table_field.simps joins_field.simps nm fr into js ..
qed (simp_all add: qualify_super_simps listed_table_names_def)

lemma cte_table_name_qualify:
  "name (ident (table (cte_table (cte_name (qualify_cte sch ids e)))))
     = name (ident (table (cte_table (cte_name e))))"
  by (cases e)
     (simp add: qualify_parts_simps transformCommonTableExpressionName_def transformTable_def
        transformSchemableIdentifier_name)

lemma with_bound_qualify_super:
  "with_bound_names (qualify_super sch ids n) = with_bound_names n"
proof (cases n)
  case (Composite k nm fr into tbl js w rest)
  show ?thesis
  proof (cases w)
    case None
    with Composite show ?thesis by (simp add: qualify_super_simps with_bound_names_def)
  next
    case (Some wn)
    with Composite show ?thesis
      by (cases wn)
         (simp add: qualify_super_simps qualify_parts_simps with_bound_names_def image_image
            cte_table_name_qualify)
  qed
qed (simp_all add: qualify_super_simps with_bound_names_def)

lemma collect_qualify_super:
  "collectSchemableIds I (qualify_super sch ids n) = collectSchemableIds I n"
  by (simp add: collectSchemableIds_eq listed_qualify_super with_bound_qualify_super)

lemma qualify_idem_step:
  assumes "\<And>I. qualify_super sch I (qualify_super sch I c) = qualify_super sch I c"
  shows "qualify sch ids (qualify sch ids c) = qualify sch ids c"
  by (simp add: qualify_eq isRoot_qualify_super collect_qualify_super assms)

lemma transformTable_idem:
  "transformTable sch ids (transformTable sch ids t) = transformTable sch ids t"
  by (simp add: transformTable_def transformSchemableIdentifier_idem)

lemma transformCommonTableExpressionName_idem:
  "transformCommonTableExpressionName sch ids (transformCommonTableExpressionName sch ids n)
     = transformCommonTableExpressionName sch ids n"
  by (simp add: transformCommonTableExpressionName_def transformTable_idem
        transformIdentifier_id option.map_id)

lemma map_idem:
  assumes "\<And>x. x \<in> set xs \<Longrightarrow> f (f x) = f x"
  shows "map f (map f xs) = map f xs"
  using assms by (induction xs) simp_all

lemma map_option_idem:
  assumes "\<And>x. x \<in> set_option xo \<Longrightarrow> f (f x) = f x"
  shows "map_option f (map_option f xo) = map_option f xo"
  using assms by (cases xo) simp_all

lemma qualify_idem:
  shows "qualify_super sch ids (qualify_super sch ids node) = qualify_super sch ids node"
    and "qualify_from sch ids (qualify_from sch ids fr) = qualify_from sch ids fr"
    and "qualify_join sch ids (qualify_join sch ids j) = qualify_join sch ids j"
    and "qualify_with sch ids (qualify_with sch ids w) = qualify_with sch ids w"
    and "qualify_cte sch ids (qualify_cte sch ids c) = qualify_cte sch ids c"
proof (induction node and fr and j and w and c arbitrary: ids and ids and ids and ids and ids)
  case (Identifier i)
  show ?case by (simp add: qualify_super_simps)
next
  case (SchemableIdentifier i)
  show ?case by (simp add: qualify_super_simps transformSchemableIdentifier_idem)
next
  case (Table t)
  show ?case by (simp add: qualify_super_simps transformTable_idem)
next
  case (Alias n a)
  then show ?case by (simp add: qualify_super_simps qualify_idem_step)
next
  case (Raw fragments ps)
  then show ?case by (simp add: qualify_super_simps qualify_idem_step map_idem)
next
  case (Composite k nm fr into tbl js w rest)
  have nm: "map_option (qualify sch ids) (map_option (qualify sch ids) nm)
              = map_option (qualify sch ids) nm"
    by (rule map_option_idem) (simp add: qualify_idem_step Composite.IH(1))
  have fr: "map_option (qualify_from sch ids) (map_option (qualify_from sch ids) fr)
              = map_option (qualify_from sch ids) fr"
    by (rule map_option_idem) (simp add: Composite.IH(2))
  have into: "map_option (qualify sch ids) (map_option (qualify sch ids) into)
              = map_option (qualify sch ids) into"
    by (rule map_option_idem) (simp add: qualify_idem_step Composite.IH(3))
  have tbl: "map_option (qualify sch ids) (map_option (qualify sch ids) tbl)
              = map_option (qualify sch ids) tbl"
    by (rule map_option_idem) (simp add: qualify_idem_step Composite.IH(4))
  have js: "map_option (map (qualify_join sch ids)) (map_option (map (qualify_join sch ids)) js)
              = map_option (map (qualify_join sch ids)) js"
    by (rule map_option_idem, rule map_idem) (simp add: Composite.IH(5))
  have w: "map_option (qualify_with sch ids) (map_option (qualify_with sch ids) w)
              = map_option (qualify_with sch ids) w"
    by (rule map_option_idem) (simp add: Composite.IH(6))
  have rest: "map (qualify sch ids) (map (qualify sch ids) rest) = map (qualify sch ids) rest"
    by (rule map_idem) (simp add: qualify_idem_step Composite.IH(7))
  show ?case
    unfolding qualify_super_simps nm fr into tbl js w rest ..
next
  case (FromNode fs)
  have "map (qualify sch ids) (map (qualify sch ids) fs) = map (qualify sch ids) fs"
    by (rule map_idem) (simp add: qualify_idem_step FromNode.IH)
  then show ?case by (simp add: qualify_parts_simps)
next
  case (JoinNode jt t on)
  have "map_option (qualify sch ids) (map_option (qualify sch ids) on)
              = map_option (qualify sch ids) on"
    by (rule map_option_idem) (simp add: qualify_idem_step JoinNode.IH(2))
  then show ?case by (simp add: qualify_parts_simps qualify_idem_step JoinNode.IH(1))
next
  case (WithNode es)
  have "map (qualify_cte sch ids) (map (qualify_cte sch ids) es) = map (qualify_cte sch ids) es"
    by (rule map_idem) (simp add: WithNode.IH)
  then show ?case by (simp add: qualify_parts_simps)
next
  case (CommonTableExpressionNode n e)
  then show ?case
    by (simp add: qualify_parts_simps qualify_idem_step transformCommonTableExpressionName_idem)
qed

lemma qualify_idempotent: "qualify sch ids (qualify sch ids node) = qualify sch ids node"
  by (rule qualify_idem_step) (rule qualify_idem(1))

text \<open>
  Claim C5. For every tree and every schema name, applying the schema-qualification
  transformer twice with the same schema yields the same result as applying it once; the
  same holds for a traversal that starts from any set of bound names.
\<close>

theorem withSchema_idempotent:
  "withSchema sch (withSchema sch node) = withSchema sch node
   \<and> fst (transformNodeImpl sch (fst (transformNodeImpl sch node ids)) ids)
       = fst (transformNodeImpl sch node ids)"
  using qualify_idempotent [of sch "{}" node] qualify_idempotent [of sch ids node]
  by (simp add: withSchema_def transformNode_def qualify_def)

text \<open>
  Claim C5 on \<open>shadowing_query\<close>, which the first application changes.
\<close>

theorem withSchema_idempotent_witness:
  "withSchema ''s'' (withSchema ''s'' shadowing_query) = withSchema ''s'' shadowing_query
   \<and> withSchema ''s'' shadowing_query \<noteq> shadowing_query"
  using withSchema_idempotent [of "''s''" shadowing_query "{}"]
  by (simp add: transformer_eval example_eval)


subsection \<open>Names bound by a WITH clause\<close>

lemma named_simps:
  "named x [] = []"
  "named x (xs @ ys) = named x xs @ named x ys"
  by (simp_all add: named_def)

lemma named_transformSchemableIdentifier:
  assumes "x \<notin> ids"
  shows "named x (transformSchemableIdentifier sch ids i # is) = named x (i # is)"
proof (cases "name (ident i) = x")
  case True
  with assms have "transformSchemableIdentifier sch ids i = i"
    by (simp add: transformSchemableIdentifier_def super_transformSchemableIdentifier_id Let_def)
  then show ?thesis by simp
next
  case False
  then show ?thesis by (simp add: named_def transformSchemableIdentifier_name)
qed

lemma named_step:
  assumes IH: "\<And>I. x \<notin> I \<Longrightarrow> x \<notin> nested_tables c \<Longrightarrow>
                 named x (schemableIdentifiers (qualify_super sch I c))
                   = named x (schemableIdentifiers c)"
    and "x \<notin> ids" and "x \<notin> own_tables c \<union> nested_tables c"
  shows "named x (schemableIdentifiers (qualify sch ids c)) = named x (schemableIdentifiers c)"
proof (cases "isRootOperationNode c")
  case True
  with assms(2,3) collect_subset_own [OF True, of ids]
  have "x \<notin> ids \<union> collectSchemableIds ids c" by auto
  with assms(3) True show ?thesis by (simp add: qualify_eq IH)
next
  case False
  with assms(2,3) show ?thesis by (simp add: qualify_eq IH)
qed

lemma named_concat_map:
  assumes "\<And>p. p \<in> set ps \<Longrightarrow> named x (f (g p)) = named x (f p)"
  shows "named x (concat (map f (map g ps))) = named x (concat (map f ps))"
  using assms by (induction ps) (simp_all add: named_simps)

lemma named_or_empty_map:
  assumes "\<And>p. p \<in> set_option po \<Longrightarrow> named x (f (g p)) = named x (f p)"
  shows "named x (or_empty (map_option f (map_option g po))) = named x (or_empty (map_option f po))"
  using assms by (cases po) simp_all

lemma named_unqualified:
  shows "x \<notin> ids \<Longrightarrow> x \<notin> nested_tables node \<Longrightarrow>
           named x (schemableIdentifiers (qualify_super sch ids node))
             = named x (schemableIdentifiers node)"
    and "x \<notin> ids \<Longrightarrow> x \<notin> nested_tables_from fr \<Longrightarrow>
           named x (schemableIdentifiers_from (qualify_from sch ids fr))
             = named x (schemableIdentifiers_from fr)"
    and "x \<notin> ids \<Longrightarrow> x \<notin> nested_tables_join j \<Longrightarrow>
           named x (schemableIdentifiers_join (qualify_join sch ids j))
             = named x (schemableIdentifiers_join j)"
    and "x \<notin> ids \<Longrightarrow> x \<notin> nested_tables_with w \<Longrightarrow>
           named x (schemableIdentifiers_with (qualify_with sch ids w))
             = named x (schemableIdentifiers_with w)"
    and "x \<notin> ids \<Longrightarrow> x \<notin> nested_tables_cte c \<Longrightarrow>
           named x (schemableIdentifiers_cte (qualify_cte sch ids c))
             = named x (schemableIdentifiers_cte c)"
proof (induction node and fr and j and w and c arbitrary: ids and ids and ids and ids and ids)
  case (Identifier i)
  show ?case by (simp add: qualify_super_simps)
next
  case (SchemableIdentifier i)
  then show ?case by (simp add: qualify_super_simps named_transformSchemableIdentifier)
next
  case (Table t)
  then show ?case
    by (simp add: qualify_super_simps transformTable_def named_transformSchemableIdentifier)
next
  case (Alias n a)
  then show ?case by (simp add: qualify_super_simps named_simps named_step)
next
  case (Raw fragments ps)
  have "named x (concat (map schemableIdentifiers (map (qualify sch ids) ps)))
          = named x (concat (map schemableIdentifiers ps))"
    by (rule named_concat_map, rule named_step) (use Raw in auto)
  then show ?case by (simp add: qualify_super_simps)
next
  case (Composite k nm fr into tbl js w rest)
  note prems = Composite.prems
  have nm: "named x (or_empty (map_option schemableIdentifiers (map_option (qualify sch ids) nm)))
              = named x (or_empty (map_option schemableIdentifiers nm))"
    by (rule named_or_empty_map, rule named_step) (use prems Composite.IH(1) in auto)
  have fr: "named x (or_empty (map_option schemableIdentifiers_from
                                 (map_option (qualify_from sch ids) fr)))
              = named x (or_empty (map_option schemableIdentifiers_from fr))"
    by (rule named_or_empty_map, rule Composite.IH(2)) (use prems in auto)
  have into: "named x (or_empty (map_option schemableIdentifiers
                                   (map_option (qualify sch ids) into)))
              = named x (or_empty (map_option schemableIdentifiers into))"
    by (rule named_or_empty_map, rule named_step) (use prems Composite.IH(3) in auto)
  have tbl: "named x (or_empty (map_option schemableIdentifiers (map_option (qualify sch ids) tbl)))
              = named x (or_empty (map_option schemableIdentifiers tbl))"
    by (rule named_or_empty_map, rule named_step) (use prems Composite.IH(4) in auto)
  have js: "named x (or_empty (map_option concat (map_option (map schemableIdentifiers_join)
                                 (map_option (map (qualify_join sch ids)) js))))
              = named x (or_empty (map_option concat
                                     (map_option (map schemableIdentifiers_join) js)))"
  proof (cases js)
    case None
    then show ?thesis by simp
  next
    case (Some l)
    have "named x (concat (map schemableIdentifiers_join (map (qualify_join sch ids) l)))
            = named x (concat (map schemableIdentifiers_join l))"
      by (rule named_concat_map, rule Composite.IH(5)) (use prems Some in auto)
    with Some show ?thesis by simp
  qed
  have w: "named x (or_empty (map_option schemableIdentifiers_with
                                (map_option (qualify_with sch ids) w)))
              = named x (or_empty (map_option schemableIdentifiers_with w))"
    by (rule named_or_empty_map, rule Composite.IH(6)) (use prems in auto)
  have rest: "named x (concat (map schemableIdentifiers (map (qualify sch ids) rest)))
              = named x (concat (map schemableIdentifiers rest))"
    by (rule named_concat_map, rule named_step) (use prems Composite.IH(7) in auto)
  show ?case
    by (simp only: qualify_super_simps schemableIdentifiers.simps named_simps
          nm fr into tbl js w rest)
next
  case (FromNode fs)
  have "named x (concat (map schemableIdentifiers (map (qualify sch ids) fs)))
          = named x (concat (map schemableIdentifiers fs))"
    by (rule named_concat_map, rule named_step) (use FromNode in auto)
  then show ?case by (simp add: qualify_parts_simps)
next
  case (JoinNode jt t on)
  have "named x (or_empty (map_option schemableIdentifiers (map_option (qualify sch ids) on)))
          = named x (or_empty (map_option schemableIdentifiers on))"
    by (rule named_or_empty_map, rule named_step) (use JoinNode in auto)
  moreover have "named x (schemableIdentifiers (qualify sch ids t))
                   = named x (schemableIdentifiers t)"
    by (rule named_step) (use JoinNode in auto)
  ultimately show ?case by (simp add: qualify_parts_simps named_simps)
next
  case (WithNode es)
  have "named x (concat (map schemableIdentifiers_cte (map (qualify_cte sch ids) es)))
          = named x (concat (map schemableIdentifiers_cte es))"
    by (rule named_concat_map, rule WithNode.IH) (use WithNode.prems in auto)
  then show ?case by (simp add: qualify_parts_simps)
next
  case (CommonTableExpressionNode n e)
  have e: "named x (schemableIdentifiers (qualify sch ids e)) = named x (schemableIdentifiers e)"
    by (rule named_step) (use CommonTableExpressionNode in auto)
  have "named x (table (cte_table (transformCommonTableExpressionName sch ids n))
                   # schemableIdentifiers (qualify sch ids e))
          = named x (table (cte_table n) # schemableIdentifiers (qualify sch ids e))"
    using CommonTableExpressionNode.prems(1)
    by (simp add: transformCommonTableExpressionName_def transformTable_def
          named_transformSchemableIdentifier)
  also have "\<dots> = named x (table (cte_table n) # schemableIdentifiers e)"
    using e by (simp add: named_def)
  finally show ?case by (simp add: qualify_parts_simps)
qed

text \<open>
  Where the removal of the WITH names works. A name bound by a statement's own WITH clause
  is never among the names that the statement collects; every identifier of that name in
  the statement comes back as it was when the transformer's set does not hold the name on
  entry and no root node nested inside the statement lists the name among its own tables.
  The specification's example \<^verbatim>\<open>WITH foo AS (SELECT * FROM bar) SELECT * FROM foo\<close> is
  such a statement.
\<close>

lemma with_names_unqualified:
  "x \<in> with_bound_names node \<Longrightarrow>
     x \<notin> collectSchemableIds ids node
     \<and> (x \<notin> ids \<and> x \<notin> nested_tables node \<longrightarrow>
          named x (schemableIdentifiers (fst (transformNodeImpl sch node ids)))
            = named x (schemableIdentifiers node))"
proof (intro conjI impI)
  assume x: "x \<in> with_bound_names node"
  then show "x \<notin> collectSchemableIds ids node"
    by (simp add: collectSchemableIds_eq)
  assume "x \<notin> ids \<and> x \<notin> nested_tables node"
  moreover from x have "x \<notin> own_tables node" by (simp add: own_tables_def)
  ultimately have "named x (schemableIdentifiers (qualify sch ids node))
                     = named x (schemableIdentifiers node)"
    by (intro named_step named_unqualified(1)) auto
  then show "named x (schemableIdentifiers (fst (transformNodeImpl sch node ids)))
               = named x (schemableIdentifiers node)"
    by (simp add: qualify_def)
qed

lemma with_names_unqualified_example:
  "''foo'' \<in> with_bound_names cte_query
   \<and> ''foo'' \<notin> collectSchemableIds {} cte_query
   \<and> ''foo'' \<notin> nested_tables cte_query
   \<and> named ''foo'' (schemableIdentifiers (fst (transformNodeImpl ''s'' cte_query {})))
       = [SchemableIdentifierNode None (IdentifierNode ''foo''),
          SchemableIdentifierNode None (IdentifierNode ''foo'')]"
  using with_names_unqualified [of "''foo''" cte_query "{}" "''s''"]
  by (simp add: example_eval with_bound_names_def own_tables_def listed_table_names_def
        isRootOperationNode_def ROOT_OPERATION_NODES_def named_def)

lemma cte_query_result:
  "withSchema ''s'' cte_query =
     select_from [bare_table ''foo'']
       (Some (WithNode [CommonTableExpressionNode
                (CommonTableExpressionNameNode (bare_table ''foo'') None)
                (select_from [schema_table ''s'' ''bar''] None [])]))
       []"
  by (simp add: transformer_eval example_eval)

text \<open>
  Claim C1. For every statement processed by the transformer, a table name bound by the
  statement's own WITH clause is never schema-qualified anywhere it is referenced inside
  that statement, also when an enclosing query binds the same name as a real table. The
  code breaks this. \<^verbatim>\<open>#removeCommonTableExpressionTables\<close> deletes the WITH names from
  the set that is being collected for the statement and from nothing else, so a subquery
  that selects from the WITH name collects it anew: in the statement of
  insert.test-d.ts, \<^verbatim>\<open>WITH foo AS (...) INSERT INTO movie ... (SELECT ... FROM foo)\<close>, the
  reference to \<open>foo\<close> comes out as \<open>s.foo\<close>. And a name that an enclosing query has put in
  the transformer's set stays there: in \<open>shadowing_query\<close> the inner WITH name itself and the
  reference to it come out as \<open>s.foo\<close>.
\<close>

theorem with_names_qualified_in_nested_statements:
  "withSchema ''s'' insert_from_cte_query =
     insert_into (schema_table ''s'' ''movie'')
       (Some (WithNode [CommonTableExpressionNode
                (CommonTableExpressionNameNode (bare_table ''foo'') None)
                (select_from [schema_table ''s'' ''person''] None [])]))
       [Composite ''ValuesNode'' None None None None None None
          [select_from [schema_table ''s'' ''foo''] None []]]
   \<and> withSchema ''s'' shadowing_query =
     select_from [schema_table ''s'' ''foo''] None
       [select_from [schema_table ''s'' ''foo'']
          (Some (WithNode [CommonTableExpressionNode
                   (CommonTableExpressionNameNode (schema_table ''s'' ''foo'') None)
                   (select_from [schema_table ''s'' ''bar''] None [])]))
          []]"
  by (simp add: transformer_eval example_eval)

text \<open>
  The claim as a statement about \<^verbatim>\<open>transformNodeImpl\<close> on a root node, refuted at
  \<open>cte_query\<close> entered while \<open>foo\<close> is bound; and a third statement on which the nested
  reference to the WITH name is qualified.
\<close>

lemma with_names_claim_refuted:
  "\<not> (\<forall>sch ids node x.
         isRootOperationNode node \<longrightarrow> x \<in> with_bound_names node \<longrightarrow>
         named x (schemableIdentifiers (fst (transformNodeImpl sch node ids)))
           = named x (schemableIdentifiers node))"
proof
  assume "\<forall>sch ids node x.
         isRootOperationNode node \<longrightarrow> x \<in> with_bound_names node \<longrightarrow>
         named x (schemableIdentifiers (fst (transformNodeImpl sch node ids)))
           = named x (schemableIdentifiers node)"
  then have "isRootOperationNode cte_query \<longrightarrow> ''foo'' \<in> with_bound_names cte_query \<longrightarrow>
         named ''foo'' (schemableIdentifiers (fst (transformNodeImpl ''s'' cte_query {''foo''})))
           = named ''foo'' (schemableIdentifiers cte_query)"
    by blast
  then show False
    by (simp add: transformer_eval example_eval with_bound_names_def named_def)
qed

lemma nested_use_query_result:
  "withSchema ''s'' nested_use_query =
     select_from [schema_table ''s'' ''baz'']
       (Some (WithNode [CommonTableExpressionNode
                (CommonTableExpressionNameNode (bare_table ''foo'') None)
                (select_from [schema_table ''s'' ''bar''] None [])]))
       [select_from [schema_table ''s'' ''foo''] None []]"
  by (simp add: transformer_eval example_eval)


section \<open>Properties of the expression normalizer\<close>

lemmas parse_eval =
  parseExpression_def parseAliasedExpression_def isOperationNodeSource_def
  createExpressionBuilder_def Let_def

lemma function_not_source: "isFunction exp \<Longrightarrow> \<not> isOperationNodeSource exp"
  by (cases exp) (simp_all add: isOperationNodeSource_def)

lemma parse_function:
  assumes "isFunction exp"
  shows "parseExpression exp e
           = (case toOperationNode (the (call exp) (ExpressionBuilder (builders e))) of
                Some node \<Rightarrow> Inr node | None \<Rightarrow> Inl TypeError,
              e\<lparr>builders := Suc (builders e),
                invocations := invocations e @ [ExpressionBuilder (builders e)]\<rparr>)"
    and "parseAliasedExpression exp e
           = (case toOperationNode (the (call exp) (ExpressionBuilder (builders e))) of
                Some node \<Rightarrow> Inr node | None \<Rightarrow> Inl TypeError,
              e\<lparr>builders := Suc (builders e),
                invocations := invocations e @ [ExpressionBuilder (builders e)]\<rparr>)"
  using assms function_not_source [OF assms]
  by (simp_all add: parseExpression_def parseAliasedExpression_def createExpressionBuilder_def
        Let_def split: option.splits)

text \<open>
  Claim C6. For every input of \<^verbatim>\<open>parseExpression\<close>: if it is a node source, the
  normalizer returns exactly the node of its \<^verbatim>\<open>toOperationNode\<close> accessor, and nothing
  else happens; if it is a function, it is invoked exactly once, with an expression builder
  handle constructed for this call and never handed out before, and the node of its return
  value is returned (a return value without the accessor makes the call of the accessor
  throw).
\<close>

theorem parseExpression_dispatch:
  "(isOperationNodeSource exp \<longrightarrow> parseExpression exp e = (Inr (the (toOperationNode exp)), e))
   \<and> (isFunction exp \<longrightarrow>
        fst (createExpressionBuilder e) = ExpressionBuilder (builders e)
        \<and> ExpressionBuilder (builders e) \<notin> ExpressionBuilder ` {..< builders e}
        \<and> snd (parseExpression exp e)
            = e\<lparr>builders := Suc (builders e),
                invocations := invocations e @ [ExpressionBuilder (builders e)]\<rparr>
        \<and> fst (parseExpression exp e)
            = (case toOperationNode (the (call exp) (ExpressionBuilder (builders e))) of
                 Some result_node \<Rightarrow> Inr result_node
               | None \<Rightarrow> Inl TypeError))"
proof (intro conjI impI)
  assume "isOperationNodeSource exp"
  then show "parseExpression exp e = (Inr (the (toOperationNode exp)), e)"
    by (simp add: parseExpression_def)
next
  show "fst (createExpressionBuilder e) = ExpressionBuilder (builders e)"
    by (simp add: createExpressionBuilder_def)
  show "ExpressionBuilder (builders e) \<notin> ExpressionBuilder ` {..< builders e}"
    by auto
next
  assume f: "isFunction exp"
  show "snd (parseExpression exp e)
            = e\<lparr>builders := Suc (builders e),
                invocations := invocations e @ [ExpressionBuilder (builders e)]\<rparr>"
    by (simp add: parse_function(1) [OF f])
  show "fst (parseExpression exp e)
            = (case toOperationNode (the (call exp) (ExpressionBuilder (builders e))) of
                 Some result_node \<Rightarrow> Inr result_node
               | None \<Rightarrow> Inl TypeError)"
    by (simp add: parse_function(1) [OF f])
qed

text \<open>
  Claim C6 on a node source for the table \<open>t\<close>, on a factory that returns a node source
  for the table \<open>u\<close>, and on such a factory that has the accessor property itself, after
  three builders were constructed.
\<close>

theorem parseExpression_dispatch_witness:
  "parseExpression (JsObject (Some (Table (bare_table ''t''))) (Some ''{}''))
       \<lparr>builders = 3, invocations = []\<rparr>
     = (Inr (Table (bare_table ''t'')), \<lparr>builders = 3, invocations = []\<rparr>)
   \<and> parseExpression
         (JsFunction (\<lambda>eb. JsObject (Some (Table (bare_table ''u''))) (Some ''{}'')) None)
         \<lparr>builders = 3, invocations = []\<rparr>
     = (Inr (Table (bare_table ''u'')), \<lparr>builders = 4, invocations = [ExpressionBuilder 3]\<rparr>)
   \<and> parseExpression
         (JsFunction (\<lambda>eb. JsObject (Some (Table (bare_table ''u''))) (Some ''{}''))
            (Some (Table (bare_table ''t''))))
         \<lparr>builders = 3, invocations = []\<rparr>
     = (Inr (Table (bare_table ''u'')), \<lparr>builders = 4, invocations = [ExpressionBuilder 3]\<rparr>)"
  using parseExpression_dispatch [of "JsObject (Some (Table (bare_table ''t''))) (Some ''{}'')"
          "\<lparr>builders = 3, invocations = []\<rparr>"]
        parseExpression_dispatch [of
          "JsFunction (\<lambda>eb. JsObject (Some (Table (bare_table ''u''))) (Some ''{}'')) None"
          "\<lparr>builders = 3, invocations = []\<rparr>"]
        parseExpression_dispatch [of
          "JsFunction (\<lambda>eb. JsObject (Some (Table (bare_table ''u''))) (Some ''{}''))
             (Some (Table (bare_table ''t'')))"
          "\<lparr>builders = 3, invocations = []\<rparr>"]
  by (simp add: prod_eq_iff isOperationNodeSource_def)

text \<open>
  Claim C7. \<^verbatim>\<open>parseExpression\<close> and \<^verbatim>\<open>parseAliasedExpression\<close> raise their invalid
  expression error if and only if the input is neither a node source nor a function, with
  the serialized form of the offending value in the message. The code breaks this: the
  message is built with \<^verbatim>\<open>JSON.stringify(exp)\<close> before the error exists, and on a
  bigint or on an object that holds a cycle that call throws a \<^verbatim>\<open>TypeError\<close>, which is
  what the caller gets.
\<close>

theorem stringify_throw_instead_of_invalid_expression:
  "\<not> isOperationNodeSource (JsPrimitive None) \<and> \<not> isFunction (JsPrimitive None)
   \<and> parseExpression (JsPrimitive None) e = (Inl TypeError, e)
   \<and> parseAliasedExpression (JsPrimitive None) e = (Inl TypeError, e)
   \<and> \<not> isOperationNodeSource (JsObject None None) \<and> \<not> isFunction (JsObject None None)
   \<and> parseExpression (JsObject None None) e = (Inl TypeError, e)
   \<and> parseAliasedExpression (JsObject None None) e = (Inl TypeError, e)"
  by (simp add: parse_eval)

text \<open>
  On every input that \<^verbatim>\<open>JSON.stringify\<close> serializes the two entry points do what the
  claim says; the number 42 is one.
\<close>

lemma invalid_expression_when_serializable:
  "((\<exists>msg. fst (parseExpression exp e) = Inl (Error msg))
      = (\<not> isOperationNodeSource exp \<and> \<not> isFunction exp \<and> JSON_stringify exp \<noteq> None))
   \<and> ((\<exists>msg. fst (parseAliasedExpression exp e) = Inl (Error msg))
      = (\<not> isOperationNodeSource exp \<and> \<not> isFunction exp \<and> JSON_stringify exp \<noteq> None))
   \<and> (\<not> isOperationNodeSource exp \<and> \<not> isFunction exp \<and> JSON_stringify exp = Some text \<longrightarrow>
        parseExpression exp e = (Inl (Error (''invalid expression: '' @ text)), e)
        \<and> parseAliasedExpression exp e
            = (Inl (Error (''invalid aliased expression: '' @ text)), e))"
  by (auto simp: parse_eval split: option.splits prod.splits)

lemma invalid_expression_example:
  "parseExpression (JsPrimitive (Some ''42'')) \<lparr>builders = 0, invocations = []\<rparr>
       = (Inl (Error ''invalid expression: 42''), \<lparr>builders = 0, invocations = []\<rparr>)
   \<and> parseAliasedExpression (JsPrimitive (Some ''42'')) \<lparr>builders = 0, invocations = []\<rparr>
       = (Inl (Error ''invalid aliased expression: 42''), \<lparr>builders = 0, invocations = []\<rparr>)"
  by (simp add: parse_eval)

text \<open>
  Claim C8. For every accepted input of \<^verbatim>\<open>parseAliasedExpression\<close>, an aliased
  expression or a function that returns one, the node returned is an alias node that wraps
  the inner expression's node and an identifier node for the alias name.
\<close>

theorem parseAliasedExpression_alias:
  "parseAliasedExpression (aliased_source a) e
     = (Inr (Alias (expression_node (expression_of a)) (Identifier (IdentifierNode (alias_name a)))), e)
   \<and> fst (parseAliasedExpression (aliased_factory f) e)
     = Inr (Alias (expression_node (expression_of (f (ExpressionBuilder (builders e)))))
                  (Identifier (IdentifierNode (alias_name (f (ExpressionBuilder (builders e)))))))"
  by (simp add: parse_eval aliased_source_def aliased_factory_def
        AliasedExpression_toOperationNode_def)

text \<open>
  Claim C8 on the table \<open>t\<close> aliased as \<open>a\<close>, and on a factory of the table \<open>u\<close>
  aliased as \<open>b\<close>.
\<close>

theorem parseAliasedExpression_alias_witness:
  "parseAliasedExpression
       (aliased_source (AliasedExpression (Expression (Table (bare_table ''t''))) ''a''))
       \<lparr>builders = 0, invocations = []\<rparr>
     = (Inr (Alias (Table (bare_table ''t'')) (Identifier (IdentifierNode ''a''))),
        \<lparr>builders = 0, invocations = []\<rparr>)
   \<and> parseAliasedExpression
       (aliased_factory (\<lambda>eb. AliasedExpression (Expression (Table (bare_table ''u''))) ''b''))
       \<lparr>builders = 0, invocations = []\<rparr>
     = (Inr (Alias (Table (bare_table ''u'')) (Identifier (IdentifierNode ''b''))),
        \<lparr>builders = 1, invocations = [ExpressionBuilder 0]\<rparr>)"
  using parseAliasedExpression_alias [of
      "AliasedExpression (Expression (Table (bare_table ''t''))) ''a''"
      "\<lparr>builders = 0, invocations = []\<rparr>"
      "\<lambda>eb. AliasedExpression (Expression (Table (bare_table ''u''))) ''b''"]
  by (simp add: prod_eq_iff parse_eval aliased_factory_def aliased_source_def)

text \<open>
  Claim C10, as amended. In both entry points the node source check comes before the
  function check, and no input passes both: a function that exposes \<^verbatim>\<open>toOperationNode\<close>
  is no node source, the normalizer invokes it as a factory exactly once and returns the
  node of its return value; a node source is no function and is never invoked.
\<close>

theorem callable_with_accessor_is_invoked:
  "(isFunction exp \<longrightarrow>
      \<not> isOperationNodeSource exp
      \<and> parseExpression exp e
          = (case toOperationNode (the (call exp) (ExpressionBuilder (builders e))) of
               Some node \<Rightarrow> Inr node | None \<Rightarrow> Inl TypeError,
             e\<lparr>builders := Suc (builders e),
               invocations := invocations e @ [ExpressionBuilder (builders e)]\<rparr>)
      \<and> parseAliasedExpression exp e
          = (case toOperationNode (the (call exp) (ExpressionBuilder (builders e))) of
               Some node \<Rightarrow> Inr node | None \<Rightarrow> Inl TypeError,
             e\<lparr>builders := Suc (builders e),
               invocations := invocations e @ [ExpressionBuilder (builders e)]\<rparr>))
   \<and> (isOperationNodeSource exp \<longrightarrow>
      \<not> isFunction exp
      \<and> parseExpression exp e = (Inr (the (toOperationNode exp)), e)
      \<and> parseAliasedExpression exp e = (Inr (the (toOperationNode exp)), e))"
proof (intro conjI impI)
  assume f: "isFunction exp"
  show "\<not> isOperationNodeSource exp" by (rule function_not_source [OF f])
  show "parseExpression exp e
          = (case toOperationNode (the (call exp) (ExpressionBuilder (builders e))) of
               Some node \<Rightarrow> Inr node | None \<Rightarrow> Inl TypeError,
             e\<lparr>builders := Suc (builders e),
               invocations := invocations e @ [ExpressionBuilder (builders e)]\<rparr>)"
    by (rule parse_function(1) [OF f])
  show "parseAliasedExpression exp e
          = (case toOperationNode (the (call exp) (ExpressionBuilder (builders e))) of
               Some node \<Rightarrow> Inr node | None \<Rightarrow> Inl TypeError,
             e\<lparr>builders := Suc (builders e),
               invocations := invocations e @ [ExpressionBuilder (builders e)]\<rparr>)"
    by (rule parse_function(2) [OF f])
next
  assume s: "isOperationNodeSource exp"
  then show "\<not> isFunction exp" using function_not_source by blast
  from s show "parseExpression exp e = (Inr (the (toOperationNode exp)), e)"
    by (simp add: parseExpression_def)
  from s show "parseAliasedExpression exp e = (Inr (the (toOperationNode exp)), e)"
    by (simp add: parseAliasedExpression_def)
qed

text \<open>
  The amended claim on a callable value that exposes \<^verbatim>\<open>toOperationNode\<close> (the table
  \<open>t\<close>) and returns a source for the table \<open>u\<close> when called: the node is \<open>u\<close>.
\<close>

theorem callable_with_accessor_is_invoked_witness:
  "isFunction (JsFunction (\<lambda>eb. JsObject (Some (Table (bare_table ''u''))) (Some ''{}''))
                 (Some (Table (bare_table ''t''))))
   \<and> toOperationNode (JsFunction (\<lambda>eb. JsObject (Some (Table (bare_table ''u''))) (Some ''{}''))
                 (Some (Table (bare_table ''t''))))
       = Some (Table (bare_table ''t''))
   \<and> parseExpression
        (JsFunction (\<lambda>eb. JsObject (Some (Table (bare_table ''u''))) (Some ''{}''))
           (Some (Table (bare_table ''t''))))
        \<lparr>builders = 0, invocations = []\<rparr>
     = (Inr (Table (bare_table ''u'')), \<lparr>builders = 1, invocations = [ExpressionBuilder 0]\<rparr>)
   \<and> parseAliasedExpression
        (JsFunction (\<lambda>eb. JsObject (Some (Table (bare_table ''u''))) (Some ''{}''))
           (Some (Table (bare_table ''t''))))
        \<lparr>builders = 0, invocations = []\<rparr>
     = (Inr (Table (bare_table ''u'')), \<lparr>builders = 1, invocations = [ExpressionBuilder 0]\<rparr>)"
  using callable_with_accessor_is_invoked [of
      "JsFunction (\<lambda>eb. JsObject (Some (Table (bare_table ''u''))) (Some ''{}''))
         (Some (Table (bare_table ''t'')))"
      "\<lparr>builders = 0, invocations = []\<rparr>"]
  by simp

text \<open>
  Claim C10 as worded has some function that exposes \<^verbatim>\<open>toOperationNode\<close> pass the node
  source check, so that its accessor is called and it is never invoked. There is none: every
  such input is invoked, and on the value above the accessor's node \<open>t\<close> is not the result.
\<close>

theorem source_check_first_counterexample:
  "\<not> (\<exists>exp e. isFunction exp \<and> toOperationNode exp \<noteq> None
         \<and> fst (parseExpression exp e) = Inr (the (toOperationNode exp))
         \<and> invocations (snd (parseExpression exp e)) = invocations e)
   \<and> \<not> (\<exists>exp e. isFunction exp \<and> toOperationNode exp \<noteq> None
         \<and> fst (parseAliasedExpression exp e) = Inr (the (toOperationNode exp))
         \<and> invocations (snd (parseAliasedExpression exp e)) = invocations e)
   \<and> fst (parseExpression
        (JsFunction (\<lambda>eb. JsObject (Some (Table (bare_table ''u''))) (Some ''{}''))
           (Some (Table (bare_table ''t''))))
        \<lparr>builders = 0, invocations = []\<rparr>)
       \<noteq> Inr (Table (bare_table ''t''))
   \<and> invocations (snd (parseExpression
        (JsFunction (\<lambda>eb. JsObject (Some (Table (bare_table ''u''))) (Some ''{}''))
           (Some (Table (bare_table ''t''))))
        \<lparr>builders = 0, invocations = []\<rparr>))
       = [ExpressionBuilder 0]"
  by (auto simp: parse_function bare_table_def)


section \<open>Properties of the raw query factory\<close>

text \<open>
  Claim C9. For every string, \<^verbatim>\<open>CompiledQuery.raw\<close> produces a compiled query whose
  parameters are empty, whose query is a raw root node that wraps exactly that string and
  whose sql is exactly that string, in both versions of the file; in the version with a
  \<^verbatim>\<open>queryId\<close>, the identifier is one that no earlier call gave, and a further call
  gives another.
\<close>

theorem raw_compiled_query:
  "query (raw_without_queryId s) = Raw [s] [] \<and> sql (raw_without_queryId s) = s
   \<and> parameters (raw_without_queryId s) = []
   \<and> query (fst (raw s n)) = Raw [s] [] \<and> sql (fst (raw s n)) = s
   \<and> parameters (fst (raw s n)) = []
   \<and> isRootOperationNode (Raw [s] [])
   \<and> queryId (fst (raw s n)) \<notin> QueryId ` {..< n}
   \<and> queryId (fst (raw s' (snd (raw s n)))) \<noteq> queryId (fst (raw s n))"
  by (auto simp: raw_without_queryId_def raw_def RawNode_createWithSql_def createQueryId_def
        isRootOperationNode_def ROOT_OPERATION_NODES_def)

text \<open>
  Claim C9 on two calls with the same text.
\<close>

theorem raw_compiled_query_witness:
  "fst (raw ''select 1'' 0)
     = \<lparr>query = Raw [''select 1''] [], sql = ''select 1'', parameters = [], queryId = QueryId 0\<rparr>
   \<and> queryId (fst (raw ''select 1'' (snd (raw ''select 1'' 0)))) = QueryId 1"
  using raw_compiled_query [of "''select 1''" 0 "''select 1''"]
  by (simp add: raw_def RawNode_createWithSql_def createQueryId_def)

end
